theory Spec2Isabelle
  imports Main "HOL-Library.Sublist"
begin

section \<open>JavaScript strings\<close>

text \<open>
  Source strings are modelled as \<open>string\<close> (a list of characters). Every delimiter the
  scripts look for (newline, \<open>=\<close>, \<open>[\<close>, \<open>]\<close>, \<open>/reply\<close>, the backtick fence) is ASCII, and
  the only positional operation is \<open>substring(6)\<close> right after a successful
  \<open>startsWith('/reply')\<close>, so the difference between bytes and UTF-16 code units does not
  show. \<open>String.prototype.trim\<close> and the regular-expression class \<open>\s\<close> are modelled on
  the ASCII white space characters (space, tab, line feed, vertical tab, form feed,
  carriage return); the non-ASCII white space of ECMAScript is outside the model.
\<close>

definition isSpace :: "char \<Rightarrow> bool" where
  "isSpace c = (c \<in> {CHR '' '', CHR 0x09, CHR 0x0A, CHR 0x0B, CHR 0x0C, CHR 0x0D})"

definition trim :: "string \<Rightarrow> string" where
  "trim s = rev (dropWhile isSpace (rev (dropWhile isSpace s)))"

text \<open>
  \<open>s.split(c)\<close> for a one-character separator. The result is never empty
  (\<open>''.split(c) = ['']\<close>), so the first branch of the \<open>case\<close> is never taken.
\<close>

fun split :: "char \<Rightarrow> string \<Rightarrow> string list" where
  "split c [] = [[]]"
| "split c (x # xs) =
     (if x = c then [] # split c xs
      else (case split c xs of
              [] \<Rightarrow> [[x]]
            | piece # pieces \<Rightarrow> (x # piece) # pieces))"

text \<open>\<open>xs.join(sep)\<close>.\<close>

fun join :: "string \<Rightarrow> string list \<Rightarrow> string" where
  "join sep [] = []"
| "join sep [x] = x"
| "join sep (x # y # ys) = x @ sep @ join sep (y # ys)"

definition startsWith :: "string \<Rightarrow> string \<Rightarrow> bool" where
  "startsWith s p = prefix p s"

definition endsWith :: "string \<Rightarrow> string \<Rightarrow> bool" where
  "endsWith s p = suffix p s"

text \<open>\<open>s.includes(c)\<close> for a one-character needle.\<close>

definition includes_char :: "string \<Rightarrow> char \<Rightarrow> bool" where
  "includes_char s c = (c \<in> set s)"

text \<open>\<open>s.slice(1, -1)\<close>: the string without its first and its last character.\<close>

definition slice_1_m1 :: "string \<Rightarrow> string" where
  "slice_1_m1 s = butlast (tl s)"

text \<open>Truthiness of a possibly absent string: \<open>undefined\<close>, \<open>null\<close> and \<open>''\<close> are falsy.\<close>

fun truthy :: "string option \<Rightarrow> bool" where
  "truthy None = False"
| "truthy (Some s) = (s \<noteq> [])"

fun falsy :: "string option \<Rightarrow> bool" where
  "falsy x = (\<not> truthy x)"

text \<open>
  A JavaScript \<open>Error\<close> as the scripts use it: the message, and the two tags
  (\<open>error.type\<close>, \<open>error.statusCode\<close>) that the AI-provider calls attach.
\<close>

datatype js_error = JsError (errMessage: string) (errType: "string option") (errStatusCode: "nat option")

definition mkError :: "string \<Rightarrow> js_error" where
  "mkError msg = JsError msg None None"


section \<open>Service codes (scripts/create-support-case.js)\<close>

text \<open>
  \<open>mapServiceCode\<close> reads \<open>mapping[serviceName] || 'general-info'\<close> on an object literal.
  A property read on an object literal also finds the members inherited from
  \<open>Object.prototype\<close>; those are functions or objects (truthy), so for such a name the
  result is the inherited member and not a service code.
\<close>

datatype js_value = JString string | JInherited string

definition mapping :: "(string \<times> string) list" where
  "mapping =
    [(''EC2'', ''amazon-elastic-compute-cloud-linux''),
     (''RDS'', ''amazon-relational-database-service''),
     (''S3'', ''amazon-simple-storage-service''),
     (''Lambda'', ''aws-lambda''),
     (''ECS'', ''amazon-elastic-container-service''),
     (''CloudFront'', ''amazon-cloudfront''),
     (''Route53'', ''amazon-route53''),
     (''VPC'', ''amazon-virtual-private-cloud'')]"

definition objectPrototypeKeys :: "string list" where
  "objectPrototypeKeys =
    [''constructor'', ''__defineGetter__'', ''__defineSetter__'', ''hasOwnProperty'',
     ''__lookupGetter__'', ''__lookupSetter__'', ''isPrototypeOf'',
     ''propertyIsEnumerable'', ''toString'', ''valueOf'', ''__proto__'',
     ''toLocaleString'']"

definition mapServiceCode :: "string \<Rightarrow> js_value" where
  "mapServiceCode serviceName =
    (case map_of mapping serviceName of
       Some code \<Rightarrow> JString code
     | None \<Rightarrow>
        if serviceName \<in> set objectPrototypeKeys then JInherited serviceName
        else JString ''general-info'')"


section \<open>Credentials (scripts/aws-support-client.js)\<close>

record credentials =
  accessKeyId :: string
  secretAccessKey :: string
  sessionToken :: "string option"

record client =
  profile :: string
  region :: string
  clientCredentials :: "credentials option"
  mockMode :: bool

text \<open>The constructor: \<open>options.profile || 'default'\<close>, \<open>options.region || 'us-east-1'\<close>.\<close>

definition newClient :: "string option \<Rightarrow> string option \<Rightarrow> bool \<Rightarrow> client" where
  "newClient p r m =
     \<lparr>profile = (if truthy p then the p else ''default''),
      region = (if truthy r then the r else ''us-east-1''),
      clientCredentials = None,
      mockMode = m\<rparr>"

definition isProfileHeader :: "string \<Rightarrow> bool" where
  "isProfileHeader trimmed = (startsWith trimmed ''['' \<and> endsWith trimmed '']'')"

text \<open>
  The loop of \<open>parseCredentials\<close>, with its two variables \<open>currentProfile\<close> and
  \<open>credentials\<close> passed along. \<open>const [key, value] = trimmed.split('=').map(s => s.trim())\<close>
  takes the first two pieces of the split; a line that contains \<open>=\<close> has at least two.
\<close>

fun parseLines :: "string \<Rightarrow> string list \<Rightarrow> string option \<Rightarrow> (string \<rightharpoonup> string) \<Rightarrow> (string \<rightharpoonup> string)" where
  "parseLines wanted [] currentProfile creds = creds"
| "parseLines wanted (line # rest) currentProfile creds =
     (let trimmed = trim line in
      if isProfileHeader trimmed then
        parseLines wanted rest (Some (slice_1_m1 trimmed)) creds
      else if truthy currentProfile \<and> includes_char trimmed CHR ''=''  then
        (let parts = map trim (split CHR ''='' trimmed);
             k = parts ! 0;
             v = parts ! 1
         in if currentProfile = Some wanted
            then parseLines wanted rest currentProfile (creds(k \<mapsto> v))
            else parseLines wanted rest currentProfile creds)
      else parseLines wanted rest currentProfile creds)"

definition profileEntries :: "string \<Rightarrow> string \<Rightarrow> (string \<rightharpoonup> string)" where
  "profileEntries content wanted = parseLines wanted (split CHR 0x0A content) None Map.empty"

definition parseCredentials :: "string \<Rightarrow> string \<Rightarrow> credentials option" where
  "parseCredentials content wanted =
     (let creds = profileEntries content wanted in
      if falsy (creds ''aws_access_key_id'') \<or> falsy (creds ''aws_secret_access_key'')
      then None
      else Some \<lparr>accessKeyId = the (creds ''aws_access_key_id''),
                 secretAccessKey = the (creds ''aws_secret_access_key''),
                 sessionToken = creds ''aws_session_token''\<rparr>)"

fun collectProfiles :: "string list \<Rightarrow> string list" where
  "collectProfiles [] = []"
| "collectProfiles (line # rest) =
     (let trimmed = trim line in
      if isProfileHeader trimmed then slice_1_m1 trimmed # collectProfiles rest
      else collectProfiles rest)"

definition getAvailableProfiles :: "string \<Rightarrow> string list" where
  "getAvailableProfiles content = collectProfiles (split CHR 0x0A content)"

text \<open>
  The local file system as \<open>loadCredentials\<close> sees it: a path is absent
  (\<open>existsSync\<close> is false), or \<open>readFileSync\<close> throws, or it yields the text.
  \<open>path.join(os.homedir(), '.aws', 'credentials')\<close> is taken for a home directory
  without a trailing separator.
\<close>

datatype text_file = ReadFails string | Content string

definition credentialsPath :: "string \<Rightarrow> string" where
  "credentialsPath home = home @ ''/.aws/credentials''"

definition loadCredentials :: "(string \<rightharpoonup> text_file) \<Rightarrow> string \<Rightarrow> client \<Rightarrow> js_error + (credentials \<times> client)" where
  "loadCredentials fs home c =
     (let path = credentialsPath home in
      case fs path of
        None \<Rightarrow>
          Inl (mkError (''AWS credentials file not found: '' @ path @ [CHR 0x0A] @
                        ''Please configure AWS CLI with: aws configure''))
      | Some (ReadFails msg) \<Rightarrow> Inl (mkError msg)
      | Some (Content content) \<Rightarrow>
          (case parseCredentials content (profile c) of
             None \<Rightarrow>
               Inl (mkError (''Profile '' @ [CHR 0x27] @ profile c @ [CHR 0x27] @
                             '' not found in '' @ path @ [CHR 0x0A] @
                             ''Available profiles: '' @
                             join '', '' (getAvailableProfiles content)))
           | Some creds \<Rightarrow> Inr (creds, c\<lparr>clientCredentials := Some creds\<rparr>)))"


section \<open>Reply extraction (scripts/reply-to-case.js)\<close>

text \<open>
  The body of the \<open>for\<close> loop of \<open>extractReplyMessage\<close> on one line: the text after
  \<open>/reply\<close> (\<open>trimmed.substring(6).trim()\<close>) when the trimmed line starts with the token
  and that text is not empty.
\<close>

definition replyOnLine :: "string \<Rightarrow> string option" where
  "replyOnLine line =
     (let trimmed = trim line in
      if startsWith trimmed ''/reply'' then
        (let message = trim (drop 6 trimmed) in
         if message \<noteq> [] then Some message else None)
      else None)"

fun scanLines :: "string list \<Rightarrow> string option" where
  "scanLines [] = None"
| "scanLines (line # rest) =
     (case replyOnLine line of
        Some message \<Rightarrow> Some message
      | None \<Rightarrow> scanLines rest)"

text \<open>
  The regular expression \<open>/\/reply\s+([\s\S]+?)(?:```|$)/\<close> (no flags, so \<open>$\<close> is the end
  of the input). \<open>untilFence\<close> is what the lazy group takes after its first character:
  it grows one character at a time until a fence or the end of the input follows.
\<close>

fun untilFence :: "string \<Rightarrow> string" where
  "untilFence [] = []"
| "untilFence (c # cs) = (if prefix ''```'' (c # cs) then [] else c # untilFence cs)"

text \<open>
  The expression tried at the start of \<open>s\<close>; the result is group 1. The greedy \<open>\s+\<close>
  first takes the whole run of white space. If text follows, the group starts there and
  a match is certain (the end of the input closes it at the latest). If nothing follows,
  \<open>\s+\<close> gives back one character, which becomes the group, provided the run has two
  characters or more; a run of one leaves nothing for the group and there is no match
  at this position.
\<close>

definition matchHere :: "string \<Rightarrow> string option" where
  "matchHere s =
     (if prefix ''/reply'' s then
        (let after = drop 6 s;
             spaces = takeWhile isSpace after;
             rest = dropWhile isSpace after
         in if spaces = [] then None
            else (case rest of
                    c # cs \<Rightarrow> Some (c # untilFence cs)
                  | [] \<Rightarrow> if 2 \<le> length spaces then Some [last spaces] else None))
      else None)"

text \<open>\<open>commentBody.match(...)\<close>: the leftmost position where the expression matches.\<close>

fun firstMatch :: "string \<Rightarrow> string option" where
  "firstMatch [] = matchHere []"
| "firstMatch (c # cs) =
     (case matchHere (c # cs) of
        Some g \<Rightarrow> Some g
      | None \<Rightarrow> firstMatch cs)"

text \<open>\<open>None\<close> is the \<open>null\<close> the function returns when neither form is found.\<close>

definition extractReplyMessage :: "string \<Rightarrow> string option" where
  "extractReplyMessage commentBody =
     (case scanLines (split CHR 0x0A commentBody) of
        Some message \<Rightarrow> Some message
      | None \<Rightarrow>
         (case firstMatch commentBody of
            Some g \<Rightarrow> if g \<noteq> [] then Some (trim g) else None
          | None \<Rightarrow> None))"

text \<open>
  For comparison with the single-line scan: the comment with every fence line (a line
  whose trimmed text starts with three backticks) taken out.
\<close>

definition isFenceLine :: "string \<Rightarrow> bool" where
  "isFenceLine line = startsWith (trim line) ''```''"

definition withoutFences :: "string \<Rightarrow> string" where
  "withoutFences commentBody =
     join [CHR 0x0A] (filter (\<lambda>line. \<not> isFenceLine line) (split CHR 0x0A commentBody))"


section \<open>Calls to the AI provider with retries (unnamed/part_001)\<close>

text \<open>
  The tests load this file as \<open>scripts/generate-aws-support-request.js\<close>.
\<close>

text \<open>
  What one HTTPS request of \<open>callOpenAI\<close> or \<open>callClaude\<close> can end in. The request
  itself (host, headers, prompt) is the same at every attempt, so the provider is
  modelled by its answers, numbered by \<open>retryCount\<close>.

  A response body is one of: text on which \<open>JSON.parse\<close> throws (with the message of
  the exception); a parsed body whose \<open>error\<close> member is truthy (with its \<open>message\<close> and
  \<open>type\<close>, each possibly absent); a parsed body with no error whose completion text
  (\<open>choices[0].message.content\<close>, \<open>content[0].text\<close>) can be read; or a parsed body with
  no error on which reading that path throws a \<open>TypeError\<close> (with its message).
  \<open>retryAfterParsed\<close> is \<open>parseInt(res.headers['retry-after'])\<close>, \<open>None\<close> standing for
  \<open>NaN\<close> (header absent or not a number).
\<close>

datatype api_body =
    NotJson string
  | ErrorBody "string option" "string option"
  | Completion string
  | Malformed string

record http_response =
  statusCode :: nat
  retryAfterParsed :: "int option"
  responseBody :: api_body

datatype attempt = NetworkError js_error | Response http_response

text \<open>What a call does besides returning: the console line of a retry, and the wait in ms.\<close>

datatype retry_event = RateLimitLog int nat nat | Sleep int

text \<open>\<open>parseInt(res.headers['retry-after']) || Math.pow(2, retryCount) * 1000\<close>.\<close>

definition retryDelay :: "http_response \<Rightarrow> nat \<Rightarrow> int" where
  "retryDelay res retryCount =
     (case retryAfterParsed res of
        Some n \<Rightarrow> if n \<noteq> 0 then n else 2 ^ retryCount * 1000
      | None \<Rightarrow> 2 ^ retryCount * 1000)"

text \<open>
  The end of the \<open>try\<close> block, below the retry branch, together with the \<open>catch\<close> that
  tags whatever was thrown with \<open>statusCode\<close>.
\<close>

definition settle :: "string \<Rightarrow> http_response \<Rightarrow> js_error + string" where
  "settle defaultMessage res =
     (case responseBody res of
        NotJson msg \<Rightarrow> Inl (JsError msg None (Some (statusCode res)))
      | ErrorBody m t \<Rightarrow>
          Inl (JsError (if truthy m then the m else defaultMessage) t (Some (statusCode res)))
      | Completion txt \<Rightarrow> Inr txt
      | Malformed msg \<Rightarrow> Inl (JsError msg None (Some (statusCode res))))"

fun isNotJson :: "api_body \<Rightarrow> bool" where
  "isNotJson (NotJson msg) = True"
| "isNotJson other = False"

text \<open>
  The common body of \<open>callOpenAI\<close> and \<open>callClaude\<close>, which differ in the host, the
  request and the default error message only. \<open>JSON.parse(body)\<close> is the first statement
  of the \<open>try\<close> block, before the test for status 429.
\<close>

function callWithRetry ::
  "string \<Rightarrow> (nat \<Rightarrow> attempt) \<Rightarrow> nat \<Rightarrow> nat \<Rightarrow> (js_error + string) \<times> retry_event list" where
  "callWithRetry defaultMessage server retryCount maxRetries =
     (case server retryCount of
        NetworkError e \<Rightarrow> (Inl e, [])
      | Response res \<Rightarrow>
          if isNotJson (responseBody res) then (settle defaultMessage res, [])
          else if statusCode res = 429 \<and> retryCount < maxRetries then
            (case callWithRetry defaultMessage server (retryCount + 1) maxRetries of
               (r, evs) \<Rightarrow>
                 (r, RateLimitLog (retryDelay res retryCount) (retryCount + 1) maxRetries
                       # Sleep (retryDelay res retryCount) # evs))
          else (settle defaultMessage res, []))"
  by pat_completeness auto
termination
  by (relation "measure (\<lambda>(d, s, retryCount, maxRetries). maxRetries - retryCount)") auto

text \<open>The defaults of the source are \<open>retryCount = 0\<close> and \<open>maxRetries = 3\<close>.\<close>

definition callOpenAI :: "(nat \<Rightarrow> attempt) \<Rightarrow> nat \<Rightarrow> nat \<Rightarrow> (js_error + string) \<times> retry_event list" where
  "callOpenAI server retryCount maxRetries =
     callWithRetry ''OpenAI API error'' server retryCount maxRetries"

definition callClaude :: "(nat \<Rightarrow> attempt) \<Rightarrow> nat \<Rightarrow> nat \<Rightarrow> (js_error + string) \<times> retry_event list" where
  "callClaude server retryCount maxRetries =
     callWithRetry ''Claude API error'' server retryCount maxRetries"

text \<open>An answer with status 429 and a body that parses: the signal that is retried.\<close>

definition rateLimited :: "attempt \<Rightarrow> bool" where
  "rateLimited a =
     (case a of
        NetworkError e \<Rightarrow> False
      | Response res \<Rightarrow> statusCode res = 429 \<and> \<not> isNotJson (responseBody res))"

definition responseOf :: "attempt \<Rightarrow> http_response" where
  "responseOf a =
     (case a of
        Response res \<Rightarrow> res
      | NetworkError e \<Rightarrow> \<lparr>statusCode = 0, retryAfterParsed = None, responseBody = NotJson []\<rparr>)"


section \<open>Case monitoring (scripts/monitor-cases.js)\<close>

subsection \<open>Cases, the state file and the outside world\<close>

text \<open>
  A case as \<open>describeCases\<close> returns it and as the state file stores it. The optional
  chain \<open>recentCommunications?.communications || []\<close> makes both levels optional.
  (Field names carry a prefix where two records of the source share a name.)
\<close>

record communication =
  commBody :: string
  commTimeCreated :: string
  submittedBy :: "string option"

record recent_communications =
  communications :: "communication list option"

record case_data =
  caseId :: string
  displayId :: "string option"
  subject :: string
  status :: string
  caseTimeCreated :: string
  recentCommunications :: "recent_communications option"

record describe_response =
  responseCases :: "case_data list option"

text \<open>
  The state file. \<open>saveState\<close> writes \<open>JSON.stringify(cases)\<close> and \<open>loadState\<close> reads
  it back with \<open>JSON.parse\<close>; the model keeps the array of cases itself
  (\<open>SavedCases\<close>) and assumes that parsing returns what was written. \<open>Unloadable msg\<close>
  is any file on which the \<open>try\<close> block of \<open>loadState\<close> throws, with the message of
  the exception: the file cannot be read, its text is not JSON, or the parsed text is
  not an array of objects that can be iterated. A path that is not in the map does not
  exist.
\<close>

datatype state_file = Unloadable string | SavedCases "case_data list"

text \<open>The two comments the monitor posts; their markdown is not modelled.\<close>

datatype comment =
    StatusChangeComment case_data case_data
  | CommunicationComment case_data communication

datatype log_line =
    LogMonitoring
  | LogMockDescribing
  | LogFound nat
  | LogNewCase string
  | LogStatusChanged string string string
  | LogNewCommunications nat string
  | LogIssueNotFound string
  | LogLoadFailed string
  | LogSaveFailed string
  | LogCompleted
  | LogErrorMonitoring string

text \<open>
  The effects of a run, in order: a line on the console, a line printed by the issue
  lookup, a comment sent to the issue tracker (an attempt; whether it succeeds is the
  environment's answer).
\<close>

datatype effect = Console log_line | LookupLog string | HttpPost nat comment

text \<open>
  The environment of a run: the clock (\<open>new Date().toISOString()\<close>, by the number of
  the reading), the issue tracker's answer to a comment (\<open>None\<close> for a 2xx status with
  a body that parses as JSON, else the message the promise is rejected with), and
  whether \<open>writeFileSync\<close> throws on a path (with its message; the file is then taken
  to be left as it was).
\<close>

record env =
  clock :: "nat \<Rightarrow> string"
  httpPost :: "nat \<Rightarrow> comment \<Rightarrow> string option"
  writeError :: "string \<Rightarrow> string option"

record notify_options =
  githubToken :: "string option"
  repository :: "string option"

record monitor_options = notify_options +
  awsProfile :: string
  optMockMode :: bool
  stateFile :: string

text \<open>The defaults of \<open>monitorAllCases\<close>.\<close>

definition defaultOptions :: monitor_options where
  "defaultOptions =
     \<lparr>githubToken = None, repository = None, awsProfile = ''default'',
      optMockMode = False, stateFile = ''.aws-case-state.json''\<rparr>"

text \<open>Asynchronous code: the effects so far, and the error thrown or the value.\<close>

type_synonym 'a io = "effect list \<times> (js_error + 'a)"

definition done_io :: "unit io" where
  "done_io = ([], Inr ())"

definition andThen :: "'a io \<Rightarrow> ('a \<Rightarrow> 'b io) \<Rightarrow> 'b io" where
  "andThen m f =
     (case m of
        (evs, Inl e) \<Rightarrow> (evs, Inl e)
      | (evs, Inr a) \<Rightarrow> (case f a of (evs', r) \<Rightarrow> (evs @ evs', r)))"

definition say :: "log_line \<Rightarrow> unit io" where
  "say l = ([Console l], Inr ())"

subsection \<open>The support client (scripts/aws-support-client.js)\<close>

definition planRequiredMessage :: string where
  "planRequiredMessage =
      ''AWS Support API '' @
      [CHR 0xE3, CHR 0x81, CHR 0xAF] @
      '' Business/Enterprise '' @
      [CHR 0xE3, CHR 0x83, CHR 0x97, CHR 0xE3, CHR 0x83, CHR 0xA9, CHR 0xE3, CHR 0x83, CHR 0xB3,
       CHR 0xE3, CHR 0x81, CHR 0x8C, CHR 0xE5, CHR 0xBF, CHR 0x85, CHR 0xE8, CHR 0xA6, CHR 0x81,
       CHR 0xE3, CHR 0x81, CHR 0xA7, CHR 0xE3, CHR 0x81, CHR 0x99, CHR 0xE3, CHR 0x80, CHR 0x82,
       CHR 0x0A, CHR 0xE3, CHR 0x83, CHR 0xA2, CHR 0xE3, CHR 0x83, CHR 0x83, CHR 0xE3, CHR 0x82,
       CHR 0xAF, CHR 0xE3, CHR 0x83, CHR 0xA2, CHR 0xE3, CHR 0x83, CHR 0xBC, CHR 0xE3, CHR 0x83,
       CHR 0x89, CHR 0xE3, CHR 0x81, CHR 0xA7, CHR 0xE5, CHR 0xAE, CHR 0x9F, CHR 0xE8, CHR 0xA1,
       CHR 0x8C, CHR 0xE3, CHR 0x81, CHR 0x99, CHR 0xE3, CHR 0x82, CHR 0x8B, CHR 0xE5, CHR 0xA0,
       CHR 0xB4, CHR 0xE5, CHR 0x90, CHR 0x88] @
      '': new AWSSupportClient({ mockMode: true })''"

definition mockDescribeCases :: "env \<Rightarrow> describe_response io" where
  "mockDescribeCases e =
     ([Console LogMockDescribing],
      Inr \<lparr>responseCases = Some
        [\<lparr>caseId = ''case-mock-12345'',
          displayId = Some ''CASE-12345'',
          subject = ''Test EC2 Issue'',
          status = ''opened'',
          caseTimeCreated = clock e 0,
          recentCommunications = Some \<lparr>communications = Some
            [\<lparr>commBody = ''This is a test case response from AWS Support.'',
              commTimeCreated = clock e 1,
              submittedBy = Some ''AWS Support''\<rparr>]\<rparr>\<rparr>]\<rparr>)"

definition describeCases :: "env \<Rightarrow> client \<Rightarrow> describe_response io" where
  "describeCases e c =
     (if mockMode c then mockDescribeCases e
      else ([], Inl (mkError planRequiredMessage)))"

subsection \<open>Change detection and notification\<close>

text \<open>\<open>c.recentCommunications?.communications || []\<close>.\<close>

definition commsOf :: "case_data \<Rightarrow> communication list" where
  "commsOf c =
     (case recentCommunications c of
        None \<Rightarrow> []
      | Some recent \<Rightarrow> (case communications recent of None \<Rightarrow> [] | Some cs \<Rightarrow> cs))"

definition getNewCommunications :: "case_data \<Rightarrow> case_data \<Rightarrow> communication list" where
  "getNewCommunications currentCase previousCase =
     (let currentComms = commsOf currentCase;
          previousComms = commsOf previousCase;
          previousTimes = set (map commTimeCreated previousComms)
      in filter (\<lambda>c. commTimeCreated c \<notin> previousTimes) currentComms)"

text \<open>
  \<open>findIssueNumber\<close> in the repository is a placeholder: it prints a TODO line and
  returns \<open>null\<close> for every case, so as the repository stands no comment is ever sent by
  the monitor. The functions that call it take the lookup as an argument
  (\<open>findIssue\<close>: the lines it prints and the issue number it returns), so that the
  control flow around \<open>postCommentToIssue\<close> is part of the model; \<open>findIssueNumber\<close> is
  the repository's own lookup.
\<close>

type_synonym issue_lookup = "string \<Rightarrow> string option \<Rightarrow> string list \<times> nat option"

definition findIssueNumber :: issue_lookup where
  "findIssueNumber cid repo = ([''[TODO] Implement GitHub Search for caseId: '' @ cid], None)"

text \<open>
  \<open>postCommentToIssue\<close>: one request; the promise resolves with the parsed body on a
  2xx status and is rejected otherwise (or on a network error). A 2xx answer whose
  body is not JSON is outside the model: \<open>JSON.parse\<close> then throws inside the response
  handler and the promise is never settled. With the repository's \<open>findIssueNumber\<close>
  this function is not reached.
\<close>

definition postCommentToIssue :: "env \<Rightarrow> nat \<Rightarrow> comment \<Rightarrow> unit io" where
  "postCommentToIssue e issueNumber cmt =
     ([HttpPost issueNumber cmt],
      case httpPost e issueNumber cmt of
        None \<Rightarrow> Inr ()
      | Some msg \<Rightarrow> Inl (mkError msg))"

text \<open>\<open>if (!issueNumber)\<close> holds for \<open>null\<close> and for the number 0.\<close>

definition notifyStatusChange ::
  "issue_lookup \<Rightarrow> env \<Rightarrow> case_data \<Rightarrow> case_data \<Rightarrow> notify_options \<Rightarrow> unit io" where
  "notifyStatusChange findIssue e caseData previousCase options =
     (case findIssue (caseId caseData) (repository options) of
        (printed, issueNumber) \<Rightarrow>
          andThen (map LookupLog printed, Inr ())
            (\<lambda>u. case issueNumber of
                   None \<Rightarrow> say (LogIssueNotFound (caseId caseData))
                 | Some n \<Rightarrow>
                     if n = 0 then say (LogIssueNotFound (caseId caseData))
                     else postCommentToIssue e n (StatusChangeComment caseData previousCase)))"

text \<open>The \<open>for\<close> loop of \<open>notifyNewCommunications\<close>: one awaited post per communication.\<close>

fun postEach :: "env \<Rightarrow> nat \<Rightarrow> case_data \<Rightarrow> communication list \<Rightarrow> unit io" where
  "postEach e issueNumber caseData [] = done_io"
| "postEach e issueNumber caseData (comm # rest) =
     andThen (postCommentToIssue e issueNumber (CommunicationComment caseData comm))
       (\<lambda>u. postEach e issueNumber caseData rest)"

definition notifyNewCommunications ::
  "issue_lookup \<Rightarrow> env \<Rightarrow> case_data \<Rightarrow> communication list \<Rightarrow> notify_options \<Rightarrow> unit io" where
  "notifyNewCommunications findIssue e caseData comms options =
     (case findIssue (caseId caseData) (repository options) of
        (printed, issueNumber) \<Rightarrow>
          andThen (map LookupLog printed, Inr ())
            (\<lambda>u. case issueNumber of
                   None \<Rightarrow> say (LogIssueNotFound (caseId caseData))
                 | Some n \<Rightarrow>
                     if n = 0 then say (LogIssueNotFound (caseId caseData))
                     else postEach e n caseData comms))"

text \<open>
  \<open>previousState\<close> is the object \<open>loadState\<close> builds, read as a map from case ids to
  cases (case ids are taken not to be names of members of \<open>Object.prototype\<close>).
\<close>

definition checkCaseChanges ::
  "issue_lookup \<Rightarrow> env \<Rightarrow> case_data \<Rightarrow> (string \<rightharpoonup> case_data) \<Rightarrow> notify_options \<Rightarrow> unit io" where
  "checkCaseChanges findIssue e caseData previousState options =
     (case previousState (caseId caseData) of
        None \<Rightarrow> say (LogNewCase (caseId caseData))
      | Some previousCase \<Rightarrow>
          andThen
            (if status caseData \<noteq> status previousCase then
               andThen
                 (say (LogStatusChanged (caseId caseData) (status previousCase) (status caseData)))
                 (\<lambda>u. if truthy (githubToken options) \<and> truthy (repository options)
                      then notifyStatusChange findIssue e caseData previousCase options
                      else done_io)
             else done_io)
            (\<lambda>u. let newCommunications = getNewCommunications caseData previousCase in
                 if length newCommunications > 0 then
                   andThen
                     (say (LogNewCommunications (length newCommunications) (caseId caseData)))
                     (\<lambda>u. if truthy (githubToken options) \<and> truthy (repository options)
                          then notifyNewCommunications findIssue e caseData newCommunications options
                          else done_io)
                 else done_io))"

subsection \<open>A monitoring run\<close>

text \<open>The loop \<open>for (const c of cases) state[c.caseId] = c\<close> of \<open>loadState\<close>.\<close>

fun indexCases :: "case_data list \<Rightarrow> (string \<rightharpoonup> case_data) \<Rightarrow> (string \<rightharpoonup> case_data)" where
  "indexCases [] st = st"
| "indexCases (c # cs) st = indexCases cs (st(caseId c \<mapsto> c))"

definition loadState :: "(string \<rightharpoonup> state_file) \<Rightarrow> string \<Rightarrow> (string \<rightharpoonup> case_data) \<times> effect list" where
  "loadState files path =
     (case files path of
        None \<Rightarrow> (Map.empty, [])
      | Some (Unloadable msg) \<Rightarrow> (Map.empty, [Console (LogLoadFailed msg)])
      | Some (SavedCases cs) \<Rightarrow> (indexCases cs Map.empty, []))"

definition saveState ::
  "env \<Rightarrow> (string \<rightharpoonup> state_file) \<Rightarrow> string \<Rightarrow> case_data list \<Rightarrow> (string \<rightharpoonup> state_file) \<times> effect list" where
  "saveState e files path cs =
     (case writeError e path of
        None \<Rightarrow> (files(path \<mapsto> SavedCases cs), [])
      | Some msg \<Rightarrow> (files, [Console (LogSaveFailed msg)]))"

text \<open>The loop \<open>for (const caseData of response.cases || [])\<close> of \<open>monitorAllCases\<close>.\<close>

fun checkAllCases ::
  "issue_lookup \<Rightarrow> env \<Rightarrow> case_data list \<Rightarrow> (string \<rightharpoonup> case_data) \<Rightarrow> notify_options \<Rightarrow> unit io" where
  "checkAllCases findIssue e [] previousState options = done_io"
| "checkAllCases findIssue e (caseData # rest) previousState options =
     andThen (checkCaseChanges findIssue e caseData previousState options)
       (\<lambda>u. checkAllCases findIssue e rest previousState options)"

text \<open>\<open>response.cases || []\<close>.\<close>

definition polledCases :: "describe_response \<Rightarrow> case_data list" where
  "polledCases response = (case responseCases response of None \<Rightarrow> [] | Some cs \<Rightarrow> cs)"

record run_result =
  filesAfter :: "string \<rightharpoonup> state_file"
  effects :: "effect list"
  outcome :: "js_error + unit"

text \<open>
  \<open>monitorAllCases\<close>. An error thrown anywhere in the \<open>try\<close> block reaches the \<open>catch\<close>,
  which prints it and throws it again; \<open>saveState\<close> is then not reached.
\<close>

definition monitorAllCases ::
  "issue_lookup \<Rightarrow> env \<Rightarrow> monitor_options \<Rightarrow> (string \<rightharpoonup> state_file) \<Rightarrow> run_result" where
  "monitorAllCases findIssue e options files =
     (let supportClient = newClient (Some (awsProfile options)) None (optMockMode options) in
      case describeCases e supportClient of
        (evs0, Inl err) \<Rightarrow>
          \<lparr>filesAfter = files,
           effects = Console LogMonitoring # evs0 @ [Console (LogErrorMonitoring (errMessage err))],
           outcome = Inl err\<rparr>
      | (evs0, Inr response) \<Rightarrow>
          (let polled = polledCases response in
           case loadState files (stateFile options) of
             (previousState, evs1) \<Rightarrow>
               (case checkAllCases findIssue e polled previousState
                       \<lparr>githubToken = githubToken options, repository = repository options\<rparr> of
                  (evs2, Inl err) \<Rightarrow>
                    \<lparr>filesAfter = files,
                     effects = Console LogMonitoring # evs0 @ Console (LogFound (length polled)) # evs1
                                 @ evs2 @ [Console (LogErrorMonitoring (errMessage err))],
                     outcome = Inl err\<rparr>
                | (evs2, Inr u) \<Rightarrow>
                    (case saveState e files (stateFile options) polled of
                       (files', evs3) \<Rightarrow>
                         \<lparr>filesAfter = files',
                          effects = Console LogMonitoring # evs0 @ Console (LogFound (length polled)) # evs1
                                      @ evs2 @ evs3 @ [Console LogCompleted],
                          outcome = Inr ()\<rparr>))))"

subsection \<open>Observing a run\<close>

text \<open>
  The change events of the specification, read off the effects: a status change is the
  console line that reports it, a new-communications event is the console line with
  the count, and the communications it carries are those of the comments sent.
\<close>

fun statusEvent :: "effect \<Rightarrow> (string \<times> string \<times> string) list" where
  "statusEvent (Console (LogStatusChanged cid previous current)) = [(cid, previous, current)]"
| "statusEvent other = []"

definition statusEvents :: "effect list \<Rightarrow> (string \<times> string \<times> string) list" where
  "statusEvents evs = concat (map statusEvent evs)"

fun communicationEvent :: "effect \<Rightarrow> (nat \<times> string) list" where
  "communicationEvent (Console (LogNewCommunications n cid)) = [(n, cid)]"
| "communicationEvent other = []"

definition communicationEvents :: "effect list \<Rightarrow> (nat \<times> string) list" where
  "communicationEvents evs = concat (map communicationEvent evs)"

fun postedCommunication :: "effect \<Rightarrow> (case_data \<times> communication) list" where
  "postedCommunication (HttpPost n (CommunicationComment c m)) = [(c, m)]"
| "postedCommunication other = []"

definition postedCommunications :: "effect list \<Rightarrow> (case_data \<times> communication) list" where
  "postedCommunications evs = concat (map postedCommunication evs)"


text \<open>
  The two steps of \<open>checkCaseChanges\<close> for a case with a snapshot, named so that
  they can be reasoned about one at a time: the status comparison with its
  notification, and the new communications with theirs.
\<close>

definition statusPart :: "issue_lookup \<Rightarrow> env \<Rightarrow> case_data \<Rightarrow> case_data \<Rightarrow> notify_options \<Rightarrow> unit io" where
  "statusPart f e c prev opts =
     (if status c \<noteq> status prev then
        andThen (say (LogStatusChanged (caseId c) (status prev) (status c)))
          (\<lambda>u. if truthy (githubToken opts) \<and> truthy (repository opts)
               then notifyStatusChange f e c prev opts
               else done_io)
      else done_io)"

definition commPart :: "issue_lookup \<Rightarrow> env \<Rightarrow> case_data \<Rightarrow> case_data \<Rightarrow> notify_options \<Rightarrow> unit io" where
  "commPart f e c prev opts =
     (if length (getNewCommunications c prev) > 0 then
        andThen (say (LogNewCommunications (length (getNewCommunications c prev)) (caseId c)))
          (\<lambda>u. if truthy (githubToken opts) \<and> truthy (repository opts)
               then notifyNewCommunications f e c (getNewCommunications c prev) opts
               else done_io)
      else done_io)"


section \<open>Example inputs\<close>

definition exampleCredentialFiles :: "string \<rightharpoonup> text_file" where
  "exampleCredentialFiles =
     [''/home/dev/.aws/credentials'' \<mapsto>
        Content ''[staging]\<newline>aws_access_key_id = AKIA1\<newline>aws_secret_access_key = s1\<newline>\<newline>[prod]\<newline>aws_access_key_id = AKIA2\<newline>aws_secret_access_key = s2'']"

text \<open>Providers for the retry examples, by the number of earlier attempts.\<close>

definition throttledThrice :: "nat \<Rightarrow> attempt" where
  "throttledThrice k =
     (if k < 3
      then Response \<lparr>statusCode = 429, retryAfterParsed = Some 0,
                     responseBody = ErrorBody (Some ''Rate limit reached'') (Some ''rate_limit_error'')\<rparr>
      else Response \<lparr>statusCode = 200, retryAfterParsed = None,
                     responseBody = Completion ''## Inquiry''\<rparr>)"

definition throttledTwice :: "nat \<Rightarrow> attempt" where
  "throttledTwice k =
     (if k < 2
      then Response \<lparr>statusCode = 429, retryAfterParsed = (if k = 0 then Some 1500 else None),
                     responseBody = ErrorBody (Some ''Rate limit reached'') (Some ''rate_limit_error'')\<rparr>
      else Response \<lparr>statusCode = 200, retryAfterParsed = None,
                     responseBody = Completion ''## Inquiry''\<rparr>)"

definition alwaysThrottled :: "nat \<Rightarrow> attempt" where
  "alwaysThrottled k =
     Response \<lparr>statusCode = 429, retryAfterParsed = None,
               responseBody = ErrorBody (Some ''Rate limit reached'') (Some ''rate_limit_error'')\<rparr>"

text \<open>Cases, state files and environments for the monitoring examples.\<close>

definition steadyClock :: "nat \<Rightarrow> string" where
  "steadyClock n = ''2025-10-24T10:00:00.000Z''"

definition quietEnv :: env where
  "quietEnv = \<lparr>clock = steadyClock, httpPost = (\<lambda>n cmt. None), writeError = (\<lambda>p. None)\<rparr>"


text \<open>
  A lookup that finds issue 7 for every case. It is not the repository's lookup
  (\<open>findIssueNumber\<close> finds none); it serves to exercise the comments sent for new
  communications.
\<close>

definition issueSeven :: issue_lookup where
  "issueSeven cid repo = ([], Some 7)"

definition mockOptions :: monitor_options where
  "mockOptions = defaultOptions\<lparr>optMockMode := True\<rparr>"


definition tokenAndRepository :: notify_options where
  "tokenAndRepository = \<lparr>githubToken = Some ''ghp_example'', repository = Some ''owner/repo''\<rparr>"

definition firstAnswer :: communication where
  "firstAnswer =
     \<lparr>commBody = ''We are looking into it.'', commTimeCreated = ''2025-10-20T08:00:00.000Z'',
      submittedBy = Some ''AWS Support''\<rparr>"

definition secondAnswer :: communication where
  "secondAnswer =
     \<lparr>commBody = ''Capacity has been restored.'', commTimeCreated = ''2025-10-21T09:30:00.000Z'',
      submittedBy = Some ''AWS Support''\<rparr>"

definition openedCase :: case_data where
  "openedCase =
     \<lparr>caseId = ''case-2025-0077'', displayId = Some ''77'', subject = ''EC2 does not start'',
      status = ''opened'', caseTimeCreated = ''2025-10-20T07:00:00.000Z'',
      recentCommunications = Some \<lparr>communications = Some [firstAnswer]\<rparr>\<rparr>"

definition resolvedNow :: case_data where
  "resolvedNow =
     \<lparr>caseId = ''case-2025-0077'', displayId = Some ''77'', subject = ''EC2 does not start'',
      status = ''resolved'', caseTimeCreated = ''2025-10-20T07:00:00.000Z'',
      recentCommunications = Some \<lparr>communications = Some [firstAnswer, secondAnswer]\<rparr>\<rparr>"

definition otherOpened :: case_data where
  "otherOpened =
     \<lparr>caseId = ''case-2025-0078'', displayId = None, subject = ''RDS failover'',
      status = ''opened'', caseTimeCreated = ''2025-10-20T07:30:00.000Z'',
      recentCommunications = None\<rparr>"


definition knownCases :: "string \<rightharpoonup> case_data" where
  "knownCases = [''case-2025-0077'' \<mapsto> openedCase, ''case-2025-0078'' \<mapsto> otherOpened]"

definition staleFiles :: "string \<rightharpoonup> state_file" where
  "staleFiles = [''.aws-case-state.json'' \<mapsto> SavedCases [resolvedNow]]"



definition mockSnapshot :: case_data where
  "mockSnapshot =
     \<lparr>caseId = ''case-mock-12345'', displayId = Some ''CASE-12345'', subject = ''Test EC2 Issue'',
      status = ''opened'', caseTimeCreated = ''2025-10-24T10:00:00.000Z'',
      recentCommunications = Some \<lparr>communications = Some
        [\<lparr>commBody = ''This is a test case response from AWS Support.'',
          commTimeCreated = ''2025-10-24T10:00:00.000Z'',
          submittedBy = Some ''AWS Support''\<rparr>]\<rparr>\<rparr>"

definition noStateFiles :: "string \<rightharpoonup> state_file" where
  "noStateFiles = Map.empty"

definition brokenFiles :: "string \<rightharpoonup> state_file" where
  "brokenFiles = [''.aws-case-state.json'' \<mapsto> Unloadable ''Unexpected end of JSON input'']"


section \<open>Properties\<close>

subsection \<open>Service codes\<close>

text \<open>
  C8, as amended. The table of \<open>mapServiceCode\<close> has eight entries, not four: EC2, RDS,
  S3 and Lambda map to the codes the claim gives, and ECS, CloudFront, Route53 and VPC
  map to codes of their own. A name that is none of the eight, and not the name of a
  member inherited from \<open>Object.prototype\<close>, maps to the fallback \<open>general-info\<close>.
\<close>

theorem mapServiceCode_table:
  "mapServiceCode ''EC2'' = JString ''amazon-elastic-compute-cloud-linux'' \<and>
   mapServiceCode ''RDS'' = JString ''amazon-relational-database-service'' \<and>
   mapServiceCode ''S3'' = JString ''amazon-simple-storage-service'' \<and>
   mapServiceCode ''Lambda'' = JString ''aws-lambda'' \<and>
   mapServiceCode ''ECS'' = JString ''amazon-elastic-container-service'' \<and>
   mapServiceCode ''CloudFront'' = JString ''amazon-cloudfront'' \<and>
   mapServiceCode ''Route53'' = JString ''amazon-route53'' \<and>
   mapServiceCode ''VPC'' = JString ''amazon-virtual-private-cloud'' \<and>
   (serviceName \<notin> set (map fst mapping) \<and> serviceName \<notin> set objectPrototypeKeys
      \<longrightarrow> mapServiceCode serviceName = JString ''general-info'')"
proof -
  have fallback: "map_of mapping serviceName = None" if "serviceName \<notin> set (map fst mapping)"
    using that by (simp add: map_of_eq_None_iff)
  have table:
     "mapServiceCode ''EC2'' = JString ''amazon-elastic-compute-cloud-linux''"
     "mapServiceCode ''RDS'' = JString ''amazon-relational-database-service''"
     "mapServiceCode ''S3'' = JString ''amazon-simple-storage-service''"
     "mapServiceCode ''Lambda'' = JString ''aws-lambda''"
     "mapServiceCode ''ECS'' = JString ''amazon-elastic-container-service''"
     "mapServiceCode ''CloudFront'' = JString ''amazon-cloudfront''"
     "mapServiceCode ''Route53'' = JString ''amazon-route53''"
     "mapServiceCode ''VPC'' = JString ''amazon-virtual-private-cloud''"
    by (simp_all add: mapServiceCode_def mapping_def)
  show ?thesis
    using fallback by (simp add: table) (simp add: mapServiceCode_def)
qed

theorem mapServiceCode_table_witness:
  "''DynamoDB'' \<notin> set (map fst mapping) \<and> ''DynamoDB'' \<notin> set objectPrototypeKeys \<and>
   mapServiceCode ''DynamoDB'' = JString ''general-info''"
proof -
  have a: "''DynamoDB'' \<notin> set (map fst mapping)" by (simp add: mapping_def)
  have b: "''DynamoDB'' \<notin> set objectPrototypeKeys" by (simp add: objectPrototypeKeys_def)
  show ?thesis using mapServiceCode_table [of "''DynamoDB''"] a b by blast
qed

text \<open>
  C8 as stated fails: ECS is not one of the four names the claim lists, and it does
  not map to the fallback code.
\<close>

theorem mapServiceCode_unlisted_counterexample:
  "''ECS'' \<notin> {''EC2'', ''RDS'', ''S3'', ''Lambda''} \<and>
   mapServiceCode ''ECS'' \<noteq> JString ''general-info''"
  by (simp add: mapServiceCode_def mapping_def)


subsection \<open>Credentials\<close>

lemma parseLines_other_profiles:
  "wanted \<notin> set (collectProfiles ls) \<Longrightarrow> cur \<noteq> Some wanted \<Longrightarrow>
   parseLines wanted ls cur creds = creds"
  by (induction ls arbitrary: cur) (auto simp: Let_def)

lemma collectProfiles_filter:
  "collectProfiles ls = map (slice_1_m1 \<circ> trim) (filter (isProfileHeader \<circ> trim) ls)"
  by (induction ls) (auto simp: Let_def)

lemma profileEntries_lacking:
  "wanted \<notin> set (getAvailableProfiles content) \<Longrightarrow> profileEntries content wanted = Map.empty"
  by (simp add: profileEntries_def getAvailableProfiles_def parseLines_other_profiles)

text \<open>
  C5. A complete profile whose session token ends in \<open>=\<close> padding: the token that
  \<open>parseCredentials\<close> returns is cut at the first \<open>=\<close> of the value, because the line
  is split at every \<open>=\<close> and only the first two pieces are kept.
\<close>

theorem parseCredentials_truncates_at_equals:
  "parseCredentials
     ''[default]\<newline>aws_access_key_id = AKIAEXAMPLE\<newline>aws_secret_access_key = wJalr/EXAMPLEKEY\<newline>aws_session_token = FQoGZXIvYXdzEXAMPLE==''
     ''default''
   = Some \<lparr>accessKeyId = ''AKIAEXAMPLE'', secretAccessKey = ''wJalr/EXAMPLEKEY'',
            sessionToken = Some ''FQoGZXIvYXdzEXAMPLE''\<rparr>"
  by code_simp

text \<open>
  C6. When the credentials file exists and the text has no header for the requested
  profile, or the entries collected for the profile have neither a key id nor a secret,
  \<open>loadCredentials\<close> throws the error whose message ends with the list of all profile
  names of the text: the inside of every header line, in order.
\<close>

theorem loadCredentials_profile_not_found:
  assumes cfile: "fs (credentialsPath home) = Some (Content content)"
    and lacking: "profile c \<notin> set (getAvailableProfiles content) \<or>
        (\<not> truthy (profileEntries content (profile c) ''aws_access_key_id'') \<and>
         \<not> truthy (profileEntries content (profile c) ''aws_secret_access_key''))"
  shows "loadCredentials fs home c =
           Inl (mkError (''Profile '' @ [CHR 0x27] @ profile c @ [CHR 0x27] @
                         '' not found in '' @ credentialsPath home @ [CHR 0x0A] @
                         ''Available profiles: '' @
                         join '', '' (getAvailableProfiles content)))
         \<and> getAvailableProfiles content =
             map (slice_1_m1 \<circ> trim)
               (filter (isProfileHeader \<circ> trim) (split CHR 0x0A content))"
proof -
  have "\<not> truthy (profileEntries content (profile c) ''aws_access_key_id'')"
    using lacking by (auto simp: profileEntries_lacking)
  then have "parseCredentials content (profile c) = None"
    by (simp add: parseCredentials_def Let_def)
  then show ?thesis
    using cfile
    by (simp add: loadCredentials_def Let_def getAvailableProfiles_def collectProfiles_filter)
qed

theorem loadCredentials_profile_not_found_witness:
  "loadCredentials exampleCredentialFiles ''/home/dev'' (newClient None None False) =
     Inl (mkError (''Profile '' @ [CHR 0x27] @ ''default'' @ [CHR 0x27] @
       '' not found in /home/dev/.aws/credentials'' @ [CHR 0x0A] @
       ''Available profiles: staging, prod''))"
proof -
  let ?content = "''[staging]\<newline>aws_access_key_id = AKIA1\<newline>aws_secret_access_key = s1\<newline>\<newline>[prod]\<newline>aws_access_key_id = AKIA2\<newline>aws_secret_access_key = s2''"
  have f: "exampleCredentialFiles (credentialsPath ''/home/dev'') = Some (Content ?content)"
    by (simp add: exampleCredentialFiles_def credentialsPath_def)
  have p: "getAvailableProfiles ?content = [''staging'', ''prod'']"
    by code_simp
  have l: "profile (newClient None None False) \<notin> set (getAvailableProfiles ?content)"
    unfolding p by (simp add: newClient_def)
  show ?thesis
    using loadCredentials_profile_not_found
            [of exampleCredentialFiles "''/home/dev''" ?content "newClient None None False"] f l
    unfolding p by (simp add: newClient_def credentialsPath_def)
qed

subsection \<open>Reply extraction\<close>

lemma split_not_Nil: "split c s \<noteq> []"
  by (induction s) (auto split: list.splits)

lemma hd_split_prefix: "prefix (hd (split c s)) s"
  by (induction s) (auto split: list.splits)

lemma split_sublist: "l \<in> set (split c s) \<Longrightarrow> sublist l s"
proof (induction s arbitrary: l)
  case Nil
  then show ?case by simp
next
  case (Cons x xs)
  show ?case
  proof (cases "x = c")
    case True
    with Cons show ?thesis by (auto simp: sublist_Cons_right)
  next
    case False
    obtain piece pieces where sp: "split c xs = piece # pieces"
      using split_not_Nil [of c xs] by (cases "split c xs") auto
    have "prefix piece xs" using hd_split_prefix [of c xs] sp by simp
    then have first: "sublist (x # piece) (x # xs)" by (simp add: sublist_Cons_right)
    have rest: "l \<in> set pieces \<Longrightarrow> sublist l (x # xs)"
      using Cons.IH [of l] sp by (simp add: sublist_Cons_right)
    from Cons.prems False sp first rest show ?thesis by auto
  qed
qed

lemma trim_sublist: "sublist (trim l) l"
proof -
  have "sublist (dropWhile isSpace (rev (dropWhile isSpace l))) (rev (dropWhile isSpace l))"
    by simp
  then have "sublist (trim l) (dropWhile isSpace l)"
    unfolding trim_def by (simp add: sublist_rev_left)
  then show ?thesis
    using sublist_dropWhile sublist_order.order_trans by blast
qed

lemma replyOnLine_token: "replyOnLine l = Some m \<Longrightarrow> sublist ''/reply'' l"
proof -
  assume "replyOnLine l = Some m"
  then have "prefix ''/reply'' (trim l)"
    by (simp add: replyOnLine_def startsWith_def Let_def split: if_splits)
  then have "sublist ''/reply'' (trim l)" by (rule prefix_imp_sublist)
  then show ?thesis using trim_sublist sublist_order.order_trans by blast
qed

lemma scanLines_None: "(\<forall>l \<in> set ls. replyOnLine l = None) \<Longrightarrow> scanLines ls = None"
  by (induction ls) (auto split: option.splits)

lemma scanLines_first:
  "(\<forall>x \<in> set pre. replyOnLine x = None) \<Longrightarrow> replyOnLine l = Some m \<Longrightarrow>
   scanLines (pre @ l # post) = Some m"
  by (induction pre) auto

lemma matchHere_token: "matchHere s = Some g \<Longrightarrow> prefix ''/reply'' s"
  by (simp add: matchHere_def split: if_splits)

lemma firstMatch_token: "firstMatch s = Some g \<Longrightarrow> sublist ''/reply'' s"
proof (induction s)
  case Nil
  then show ?case by (simp add: matchHere_def)
next
  case (Cons x xs)
  then show ?case
    by (auto simp: sublist_Cons_right split: option.splits dest: matchHere_token)
qed

lemma extractReplyMessage_no_token:
  assumes "\<not> sublist ''/reply'' c"
  shows "extractReplyMessage c = None"
proof -
  have "scanLines (split CHR 0x0A c) = None"
  proof (rule scanLines_None, rule ballI)
    fix l assume "l \<in> set (split CHR 0x0A c)"
    then have "sublist l c" by (rule split_sublist)
    with assms have "\<not> sublist ''/reply'' l"
      using sublist_order.order_trans by blast
    then show "replyOnLine l = None"
      using replyOnLine_token by (cases "replyOnLine l") auto
  qed
  moreover have "firstMatch c = None"
    using assms firstMatch_token by (cases "firstMatch c") auto
  ultimately show ?thesis by (simp add: extractReplyMessage_def)
qed

lemma prefix_append_take:
  assumes "prefix p (xs @ ys)" and "length p \<le> length xs + k"
  shows "prefix p (xs @ take k ys)"
proof -
  from assms(1) have "p = take (length p) (xs @ ys)"
    by (metis append_eq_conv_conj prefix_def)
  also have "\<dots> = take (length p) (xs @ take k ys)"
    using assms(2) by (auto simp: min_def)
  finally show ?thesis by (metis take_is_prefix)
qed

lemma untilFence_block:
  assumes "closing = [] \<or> prefix ''```'' closing"
    and "\<not> sublist ''```'' (xs @ take 2 closing)"
  shows "untilFence (xs @ closing) = xs"
  using assms(2)
proof (induction xs)
  case Nil
  from assms(1) show ?case by (cases closing) auto
next
  case (Cons x xs)
  have np: "\<not> prefix ''```'' ((x # xs) @ closing)"
  proof
    assume a: "prefix ''```'' ((x # xs) @ closing)"
    have "length ''```'' \<le> length (x # xs) + 2" by simp
    with a have "prefix ''```'' ((x # xs) @ take 2 closing)" by (rule prefix_append_take)
    then have "sublist ''```'' ((x # xs) @ take 2 closing)" by (rule prefix_imp_sublist)
    with Cons.prems show False by blast
  qed
  have "\<not> sublist ''```'' (xs @ take 2 closing)"
    using Cons.prems by (simp add: sublist_Cons_right)
  then have "untilFence (xs @ closing) = xs" by (rule Cons.IH)
  then show ?case using np by simp
qed

lemma firstMatch_skip:
  assumes "\<not> sublist ''/reply'' (before @ ''/repl'')"
  shows "firstMatch (before @ ''/reply'' @ rest) = firstMatch (''/reply'' @ rest)"
  using assms
proof (induction before)
  case Nil
  then show ?case by simp
next
  case (Cons b bs)
  let ?s = "(b # bs) @ ''/reply'' @ rest"
  have np: "\<not> prefix ''/reply'' ?s"
  proof
    assume a: "prefix ''/reply'' ?s"
    have "length ''/reply'' \<le> length (b # bs) + 5" by simp
    with a have "prefix ''/reply'' ((b # bs) @ take 5 (''/reply'' @ rest))"
      by (rule prefix_append_take)
    moreover have "take 5 (''/reply'' @ rest) = ''/repl''" by simp
    ultimately have "prefix ''/reply'' ((b # bs) @ ''/repl'')" by (simp only:)
    then have "sublist ''/reply'' ((b # bs) @ ''/repl'')" by (rule prefix_imp_sublist)
    with Cons.prems show False by blast
  qed
  have none: "matchHere ?s = None"
  proof (cases "matchHere ?s")
    case None
    then show ?thesis .
  next
    case (Some g)
    then have "prefix ''/reply'' ?s" by (rule matchHere_token)
    with np show ?thesis by blast
  qed
  have "\<not> sublist ''/reply'' (bs @ ''/repl'')"
    using Cons.prems by (simp add: sublist_Cons_right)
  then have "firstMatch (bs @ ''/reply'' @ rest) = firstMatch (''/reply'' @ rest)"
    by (rule Cons.IH)
  then show ?case using none by simp
qed

lemma matchHere_block:
  assumes "spaces \<noteq> []" and "\<forall>ch \<in> set spaces. isSpace ch"
    and "block \<noteq> []" and "\<not> isSpace (hd block)"
    and "closing = [] \<or> prefix ''```'' closing"
    and "\<not> sublist ''```'' (tl block @ take 2 closing)"
  shows "matchHere (''/reply'' @ spaces @ block @ closing) = Some block"
proof -
  obtain b bs where blk: "block = b # bs" using assms(3) by (cases block) auto
  have tw: "takeWhile isSpace (spaces @ block @ closing) = spaces"
    using assms(2,4) blk by (simp add: takeWhile_append2)
  have dw: "dropWhile isSpace (spaces @ block @ closing) = block @ closing"
    using assms(2,4) blk by (simp add: dropWhile_append2)
  have uf: "untilFence (bs @ closing) = bs"
    using untilFence_block [OF assms(5), of bs] assms(6) blk by simp
  show ?thesis
    using tw dw uf assms(1) blk by (simp add: matchHere_def Let_def)
qed

lemma extractReplyMessage_first_line:
  assumes "split CHR 0x0A c = pre @ l # post"
    and "\<forall>x \<in> set pre. replyOnLine x = None" and "replyOnLine l = Some m"
  shows "extractReplyMessage c = Some m"
  using scanLines_first [OF assms(2,3)] assms(1) by (simp add: extractReplyMessage_def)

lemma extractReplyMessage_block:
  assumes "\<forall>l \<in> set (split CHR 0x0A c). replyOnLine l = None"
    and "c = before @ ''/reply'' @ spaces @ block @ closing"
    and "\<not> sublist ''/reply'' (before @ ''/repl'')"
    and "spaces \<noteq> []" and "\<forall>ch \<in> set spaces. isSpace ch"
    and "block \<noteq> []" and "\<not> isSpace (hd block)"
    and "closing = [] \<or> prefix ''```'' closing"
    and "\<not> sublist ''```'' (tl block @ take 2 closing)"
  shows "extractReplyMessage c = Some (trim block)"
proof -
  have a: "scanLines (split CHR 0x0A c) = None"
    using assms(1) by (rule scanLines_None)
  have "firstMatch c = firstMatch (''/reply'' @ spaces @ block @ closing)"
    unfolding assms(2) using assms(3) by (rule firstMatch_skip)
  also have "\<dots> = Some block"
    using matchHere_block [OF assms(4-9)] by simp
  finally show ?thesis using a assms(6) by (simp add: extractReplyMessage_def)
qed


lemma split_no_separator: "l \<in> set (split c s) \<Longrightarrow> c \<notin> set l"
proof (induction s arbitrary: l)
  case Nil
  then show ?case by simp
next
  case (Cons x xs)
  obtain piece pieces where sp: "split c xs = piece # pieces"
    using split_not_Nil [of c xs] by (cases "split c xs") auto
  have "c \<notin> set piece" "\<And>l. l \<in> set pieces \<Longrightarrow> c \<notin> set l"
    using Cons.IH sp by auto
  with Cons.prems sp show ?case by (auto split: if_splits)
qed

lemma split_append_separator:
  "c \<notin> set x \<Longrightarrow> split c (x @ c # rest) = x # split c rest"
  by (induction x) auto

lemma split_plain: "c \<notin> set x \<Longrightarrow> split c x = [x]"
  by (induction x) auto

lemma split_join:
  "ls \<noteq> [] \<Longrightarrow> (\<forall>l \<in> set ls. c \<notin> set l) \<Longrightarrow> split c (join [c] ls) = ls"
proof (induction "[c]" ls rule: join.induct)
  case 1
  then show ?case by simp
next
  case (2 x)
  then show ?case by (simp add: split_plain)
next
  case (3 x y ys)
  then show ?case by (simp add: split_append_separator)
qed

lemma fence_line_no_reply: "isFenceLine l \<Longrightarrow> replyOnLine l = None"
  by (auto simp: isFenceLine_def replyOnLine_def startsWith_def Let_def prefix_def)

text \<open>
  C7. The comment \<open>/reply hello\<close> yields \<open>hello\<close>. A comment in which the token
  \<open>/reply\<close> does not occur yields nothing. When no line gives a reply by the
  single-line form and the first occurrence of the token is followed by white space
  and then by a block of text that ends at the first fence or at the end of the
  comment, the result is that block, trimmed. When some line gives a reply by the
  single-line form, the first such line decides, whatever else the comment holds.
\<close>

theorem extractReplyMessage_forms:
  "extractReplyMessage ''/reply hello'' = Some ''hello'' \<and>
   (\<not> sublist ''/reply'' c1 \<longrightarrow> extractReplyMessage c1 = None) \<and>
   ((\<forall>l \<in> set (split CHR 0x0A c2). replyOnLine l = None) \<and>
    c2 = before @ ''/reply'' @ spaces @ block @ closing \<and>
    \<not> sublist ''/reply'' (before @ ''/repl'') \<and>
    spaces \<noteq> [] \<and> (\<forall>ch \<in> set spaces. isSpace ch) \<and>
    block \<noteq> [] \<and> \<not> isSpace (hd block) \<and>
    (closing = [] \<or> prefix ''```'' closing) \<and>
    \<not> sublist ''```'' (tl block @ take 2 closing)
      \<longrightarrow> extractReplyMessage c2 = Some (trim block)) \<and>
   (split CHR 0x0A c3 = pre @ l # post \<and>
    (\<forall>x \<in> set pre. replyOnLine x = None) \<and> replyOnLine l = Some m
      \<longrightarrow> extractReplyMessage c3 = Some m)"
proof -
  have single: "extractReplyMessage ''/reply hello'' = Some ''hello''"
    by code_simp
  show ?thesis
    using single extractReplyMessage_no_token [of c1]
      extractReplyMessage_block [of c2 before spaces block closing]
      extractReplyMessage_first_line [of c3 pre l post m]
    by blast
qed

theorem extractReplyMessage_forms_witness:
  "extractReplyMessage ''Just a regular comment'' = None \<and>
   extractReplyMessage ''Example:\<newline>```\<newline>/reply\<newline>Thank you.\<newline>Please escalate.\<newline>```\<newline>'' =
     Some ''Thank you.\<newline>Please escalate.'' \<and>
   extractReplyMessage ''/reply\<newline>first\<newline>/reply second\<newline>third'' = Some ''second''"
proof -
  let ?c2 = "''Example:\<newline>```\<newline>/reply\<newline>Thank you.\<newline>Please escalate.\<newline>```\<newline>''"
  let ?c3 = "''/reply\<newline>first\<newline>/reply second\<newline>third''"
  have a: "\<not> sublist ''/reply'' ''Just a regular comment''" by code_simp
  have b1: "\<forall>l \<in> set (split CHR 0x0A ?c2). replyOnLine l = None" by code_simp
  have b2: "?c2 = ''Example:\<newline>```\<newline>'' @ ''/reply'' @ ''\<newline>'' @ ''Thank you.\<newline>Please escalate.\<newline>'' @ ''```\<newline>''"
    by simp
  have b3: "\<not> sublist ''/reply'' (''Example:\<newline>```\<newline>'' @ ''/repl'')" by code_simp
  have b4: "''\<newline>'' \<noteq> []" "\<forall>ch \<in> set ''\<newline>''. isSpace ch" by (simp_all add: isSpace_def)
  have b5: "''Thank you.\<newline>Please escalate.\<newline>'' \<noteq> []"
     "\<not> isSpace (hd ''Thank you.\<newline>Please escalate.\<newline>'')" by (simp_all add: isSpace_def)
  have b6: "''```\<newline>'' = [] \<or> prefix ''```'' ''```\<newline>''" by simp
  have b7: "\<not> sublist ''```'' (tl ''Thank you.\<newline>Please escalate.\<newline>'' @ take 2 ''```\<newline>'')" by code_simp
  have b8: "trim ''Thank you.\<newline>Please escalate.\<newline>'' = ''Thank you.\<newline>Please escalate.''" by code_simp
  have c1: "split CHR 0x0A ?c3 = [''/reply'', ''first''] @ ''/reply second'' # [''third'']" by code_simp
  have c2: "\<forall>x \<in> set [''/reply'', ''first'']. replyOnLine x = None" by code_simp
  have c3: "replyOnLine ''/reply second'' = Some ''second''" by code_simp
  show ?thesis
    using extractReplyMessage_forms
            [of "''Just a regular comment''" ?c2 "''Example:\<newline>```\<newline>''" "''\<newline>''"
                "''Thank you.\<newline>Please escalate.\<newline>''" "''```\<newline>''" ?c3
                "[''/reply'', ''first'']" "''/reply second''" "[''third'']" "''second''"]
      a b1 b2 b3 b4 b5 b6 b7 c1 c2 c3
    unfolding b8 by blast
qed

text \<open>
  C10. The single-line scan keeps no fence state: the first line, in document order,
  whose trimmed text starts with \<open>/reply\<close> and has a non-empty remainder decides the
  result, whatever lines come before it (fence lines included), and the result is the
  same on the comment with all its fence lines taken out.
\<close>

theorem extractReplyMessage_ignores_fences:
  assumes "split CHR 0x0A c = pre @ l # post"
    and "\<forall>x \<in> set pre. replyOnLine x = None" and "replyOnLine l = Some m"
  shows "extractReplyMessage c = Some m \<and> extractReplyMessage (withoutFences c) = Some m"
proof -
  let ?keep = "filter (\<lambda>line. \<not> isFenceLine line)"
  have nofence: "\<not> isFenceLine l"
    using assms(3) fence_line_no_reply by fastforce
  have kept: "?keep (split CHR 0x0A c) = ?keep pre @ l # ?keep post"
    using assms(1) nofence by simp
  have "\<forall>x \<in> set (?keep pre @ l # ?keep post). CHR 0x0A \<notin> set x"
    using split_no_separator [of _ "CHR 0x0A" c] assms(1) by auto
  then have "split CHR 0x0A (join [CHR 0x0A] (?keep pre @ l # ?keep post)) = ?keep pre @ l # ?keep post"
    by (intro split_join) simp_all
  then have sp: "split CHR 0x0A (withoutFences c) = ?keep pre @ l # ?keep post"
    by (simp add: withoutFences_def kept)
  have "\<forall>x \<in> set (?keep pre). replyOnLine x = None"
    using assms(2) by simp
  then have "extractReplyMessage (withoutFences c) = Some m"
    using sp assms(3) extractReplyMessage_first_line by blast
  moreover have "extractReplyMessage c = Some m"
    using assms by (rule extractReplyMessage_first_line)
  ultimately show ?thesis by simp
qed

theorem extractReplyMessage_ignores_fences_witness:
  "extractReplyMessage ''Here is an example:\<newline>```\<newline>/reply example\<newline>```\<newline>\<newline>/reply Actual reply here\<newline>'' = Some ''example'' \<and>
   extractReplyMessage (withoutFences ''Here is an example:\<newline>```\<newline>/reply example\<newline>```\<newline>\<newline>/reply Actual reply here\<newline>'') = Some ''example''"
proof -
  let ?c = "''Here is an example:\<newline>```\<newline>/reply example\<newline>```\<newline>\<newline>/reply Actual reply here\<newline>''"
  have a: "split CHR 0x0A ?c = [''Here is an example:'', ''```''] @ ''/reply example'' # [''```'', [], ''/reply Actual reply here'', []]"
    by code_simp
  have b: "\<forall>x \<in> set [''Here is an example:'', ''```'']. replyOnLine x = None" by code_simp
  have c: "replyOnLine ''/reply example'' = Some ''example''" by code_simp
  show ?thesis
    using extractReplyMessage_ignores_fences [OF a b c] .
qed

subsection \<open>Retries\<close>

lemma callWithRetry_retry:
  assumes "rateLimited (server k)" and "k < m"
  shows "callWithRetry d server k m =
           (fst (callWithRetry d server (Suc k) m),
            RateLimitLog (retryDelay (responseOf (server k)) k) (Suc k) m
              # Sleep (retryDelay (responseOf (server k)) k)
              # snd (callWithRetry d server (Suc k) m))"
proof -
  obtain res where r: "server k = Response res" "statusCode res = 429" "\<not> isNotJson (responseBody res)"
    using assms(1) by (auto simp: rateLimited_def split: attempt.splits)
  show ?thesis
    by (subst callWithRetry.simps) (simp add: r assms(2) responseOf_def split: prod.splits del: callWithRetry.simps)
qed

lemma callWithRetry_final:
  assumes "server k = Response res" and "statusCode res \<noteq> 429 \<or> \<not> k < m"
  shows "callWithRetry d server k m = (settle d res, [])"
  using assms by (subst callWithRetry.simps) (auto simp del: callWithRetry.simps)

lemma rateLimited_response:
  "rateLimited a \<Longrightarrow> a = Response (responseOf a) \<and> statusCode (responseOf a) = 429
     \<and> \<not> isNotJson (responseBody (responseOf a))"
  by (auto simp: rateLimited_def responseOf_def split: attempt.splits)

lemma callWithRetry_third_attempt:
  assumes "rateLimited (server 0)" "rateLimited (server 1)"
    and "server 2 = Response res" "statusCode res \<noteq> 429" "responseBody res = Completion txt"
  shows "callWithRetry d server 0 3 =
           (Inr txt,
            [RateLimitLog (retryDelay (responseOf (server 0)) 0) 1 3,
             Sleep (retryDelay (responseOf (server 0)) 0),
             RateLimitLog (retryDelay (responseOf (server 1)) 1) 2 3,
             Sleep (retryDelay (responseOf (server 1)) 1)])"
proof -
  have two: "callWithRetry d server 2 3 = (Inr txt, [])"
    using callWithRetry_final [of server 2 res 3 d] assms(3-5) by (simp add: settle_def)
  have one: "callWithRetry d server 1 3 =
      (Inr txt, [RateLimitLog (retryDelay (responseOf (server 1)) 1) 2 3,
                 Sleep (retryDelay (responseOf (server 1)) 1)])"
    using callWithRetry_retry [of server 1 3 d] assms(2) two
    by (simp add: numeral_2_eq_2 del: callWithRetry.simps)
  show ?thesis
    using callWithRetry_retry [of server 0 3 d] assms(1) one
    by (simp del: callWithRetry.simps)
qed

lemma callWithRetry_exhausted:
  assumes "rateLimited (server 0)" "rateLimited (server 1)" "rateLimited (server 2)"
    "rateLimited (server 3)"
    and "responseBody (responseOf (server 3)) = ErrorBody em et"
  shows "callWithRetry d server 0 3 =
           (Inl (JsError (if truthy em then the em else d) et (Some 429)),
            [RateLimitLog (retryDelay (responseOf (server 0)) 0) 1 3,
             Sleep (retryDelay (responseOf (server 0)) 0),
             RateLimitLog (retryDelay (responseOf (server 1)) 1) 2 3,
             Sleep (retryDelay (responseOf (server 1)) 1),
             RateLimitLog (retryDelay (responseOf (server 2)) 2) 3 3,
             Sleep (retryDelay (responseOf (server 2)) 2)])"
proof -
  have three: "callWithRetry d server 3 3 =
      (Inl (JsError (if truthy em then the em else d) et (Some 429)), [])"
    using callWithRetry_final [of server 3 "responseOf (server 3)" 3 d]
      rateLimited_response [OF assms(4)] assms(5)
    by (simp add: settle_def del: callWithRetry.simps)
  have two: "callWithRetry d server 2 3 =
      (Inl (JsError (if truthy em then the em else d) et (Some 429)),
       [RateLimitLog (retryDelay (responseOf (server 2)) 2) 3 3,
        Sleep (retryDelay (responseOf (server 2)) 2)])"
    using callWithRetry_retry [of server 2 3 d] assms(3) three
    by (simp add: numeral_3_eq_3 numeral_2_eq_2 del: callWithRetry.simps)
  have one: "callWithRetry d server 1 3 =
      (Inl (JsError (if truthy em then the em else d) et (Some 429)),
       [RateLimitLog (retryDelay (responseOf (server 1)) 1) 2 3,
        Sleep (retryDelay (responseOf (server 1)) 1),
        RateLimitLog (retryDelay (responseOf (server 2)) 2) 3 3,
        Sleep (retryDelay (responseOf (server 2)) 2)])"
    using callWithRetry_retry [of server 1 3 d] assms(2) two
    by (simp add: numeral_2_eq_2 del: callWithRetry.simps)
  show ?thesis
    using callWithRetry_retry [of server 0 3 d] assms(1) one
    by (simp del: callWithRetry.simps)
qed

text \<open>
  C4, as amended. \<open>maxRetries = 3\<close> bounds the retries, so a call makes up to four
  attempts. A rate-limit signal is an answer with status 429 whose body parses as JSON.
  If attempts 1 and 2 are rate-limited and attempt 3 answers with a completion (and
  not with status 429), the call returns that completion after two waits. If all four
  attempts are rate-limited and the last body carries an error object, the call
  fails with that error's message (or the provider's default message), tagged with
  status 429 and the error's type, after three waits. The wait before a retry is the
  parsed \<open>retry-after\<close> value when that is a number other than zero, and with no such
  header it is 1000 ms, 2000 ms, 4000 ms, doubling with each retry. Both providers
  behave alike.
\<close>

theorem provider_call_retries:
  "(rateLimited (busy 0) \<and> rateLimited (busy 1) \<and> busy 2 = Response res \<and>
    statusCode res \<noteq> 429 \<and> responseBody res = Completion txt
      \<longrightarrow> fst (callOpenAI busy 0 3) = Inr txt \<and> fst (callClaude busy 0 3) = Inr txt \<and>
          [w. Sleep w \<leftarrow> snd (callOpenAI busy 0 3)] =
            [retryDelay (responseOf (busy 0)) 0, retryDelay (responseOf (busy 1)) 1] \<and>
          snd (callClaude busy 0 3) = snd (callOpenAI busy 0 3)) \<and>
   (rateLimited (down 0) \<and> rateLimited (down 1) \<and> rateLimited (down 2) \<and> rateLimited (down 3) \<and>
    responseBody (responseOf (down 3)) = ErrorBody em et
      \<longrightarrow> fst (callOpenAI down 0 3) =
            Inl (JsError (if truthy em then the em else ''OpenAI API error'') et (Some 429)) \<and>
          fst (callClaude down 0 3) =
            Inl (JsError (if truthy em then the em else ''Claude API error'') et (Some 429)) \<and>
          [w. Sleep w \<leftarrow> snd (callOpenAI down 0 3)] =
            [retryDelay (responseOf (down 0)) 0, retryDelay (responseOf (down 1)) 1,
             retryDelay (responseOf (down 2)) 2] \<and>
          snd (callClaude down 0 3) = snd (callOpenAI down 0 3)) \<and>
   (retryAfterParsed hinted = Some hint \<and> hint \<noteq> 0 \<longrightarrow> retryDelay hinted k = hint) \<and>
   (retryAfterParsed plain = None
      \<longrightarrow> retryDelay plain 0 = 1000 \<and> retryDelay plain 1 = 2000 \<and> retryDelay plain 2 = 4000 \<and>
          retryDelay plain (Suc k) = 2 * retryDelay plain k)"
proof -
  have delays: "(retryAfterParsed hinted = Some hint \<and> hint \<noteq> 0 \<longrightarrow> retryDelay hinted k = hint) \<and>
   (retryAfterParsed plain = None
      \<longrightarrow> retryDelay plain 0 = 1000 \<and> retryDelay plain 1 = 2000 \<and> retryDelay plain 2 = 4000 \<and>
          retryDelay plain (Suc k) = 2 * retryDelay plain k)"
    by (simp add: retryDelay_def)
  have third: "fst (callOpenAI busy 0 3) = Inr txt \<and> fst (callClaude busy 0 3) = Inr txt \<and>
          [w. Sleep w \<leftarrow> snd (callOpenAI busy 0 3)] =
            [retryDelay (responseOf (busy 0)) 0, retryDelay (responseOf (busy 1)) 1] \<and>
          snd (callClaude busy 0 3) = snd (callOpenAI busy 0 3)"
    if "rateLimited (busy 0)" "rateLimited (busy 1)" "busy 2 = Response res"
      "statusCode res \<noteq> 429" "responseBody res = Completion txt"
    using callWithRetry_third_attempt [OF that] by (simp add: callOpenAI_def callClaude_def del: callWithRetry.simps)
  have exhausted: "fst (callOpenAI down 0 3) =
            Inl (JsError (if truthy em then the em else ''OpenAI API error'') et (Some 429)) \<and>
          fst (callClaude down 0 3) =
            Inl (JsError (if truthy em then the em else ''Claude API error'') et (Some 429)) \<and>
          [w. Sleep w \<leftarrow> snd (callOpenAI down 0 3)] =
            [retryDelay (responseOf (down 0)) 0, retryDelay (responseOf (down 1)) 1,
             retryDelay (responseOf (down 2)) 2] \<and>
          snd (callClaude down 0 3) = snd (callOpenAI down 0 3)"
    if "rateLimited (down 0)" "rateLimited (down 1)" "rateLimited (down 2)" "rateLimited (down 3)"
      "responseBody (responseOf (down 3)) = ErrorBody em et"
    using callWithRetry_exhausted [OF that] by (simp add: callOpenAI_def callClaude_def del: callWithRetry.simps)
  show ?thesis
    using delays third exhausted by blast
qed

theorem provider_call_retries_witness:
  "fst (callOpenAI throttledTwice 0 3) = Inr ''## Inquiry'' \<and>
   [w. Sleep w \<leftarrow> snd (callOpenAI throttledTwice 0 3)] = [1500, 2000] \<and>
   fst (callOpenAI alwaysThrottled 0 3) =
     Inl (JsError ''Rate limit reached'' (Some ''rate_limit_error'') (Some 429)) \<and>
   fst (callClaude alwaysThrottled 0 3) =
     Inl (JsError ''Rate limit reached'' (Some ''rate_limit_error'') (Some 429)) \<and>
   [w. Sleep w \<leftarrow> snd (callOpenAI alwaysThrottled 0 3)] = [1000, 2000, 4000]"
proof -
  let ?ok = "\<lparr>statusCode = 200, retryAfterParsed = None, responseBody = Completion ''## Inquiry''\<rparr>"
  have busy: "rateLimited (throttledTwice 0)" "rateLimited (throttledTwice 1)"
    "throttledTwice 2 = Response ?ok" "statusCode ?ok \<noteq> 429"
    "responseBody ?ok = Completion ''## Inquiry''"
    by (simp_all add: throttledTwice_def rateLimited_def)
  have down: "rateLimited (alwaysThrottled 0)" "rateLimited (alwaysThrottled 1)"
    "rateLimited (alwaysThrottled 2)" "rateLimited (alwaysThrottled 3)"
    "responseBody (responseOf (alwaysThrottled 3)) =
       ErrorBody (Some ''Rate limit reached'') (Some ''rate_limit_error'')"
    by (simp_all add: alwaysThrottled_def rateLimited_def responseOf_def)
  have hinted: "retryAfterParsed (responseOf (throttledTwice 0)) = Some 1500" "(1500::int) \<noteq> 0"
    by (simp_all add: throttledTwice_def responseOf_def)
  have plain: "retryAfterParsed (responseOf (alwaysThrottled 0)) = None"
    by (simp add: alwaysThrottled_def responseOf_def)
  have same: "responseOf (alwaysThrottled 1) = responseOf (alwaysThrottled 0)"
    "responseOf (alwaysThrottled 2) = responseOf (alwaysThrottled 0)"
    by (simp_all add: alwaysThrottled_def)
  have second: "retryDelay (responseOf (throttledTwice 1)) 1 = 2000"
    by (simp add: throttledTwice_def responseOf_def retryDelay_def)
  note inst = provider_call_retries
      [of throttledTwice ?ok "''## Inquiry''" alwaysThrottled "Some ''Rate limit reached''"
          "Some ''rate_limit_error''" "responseOf (throttledTwice 0)" 1500 0
          "responseOf (alwaysThrottled 0)"]
  show ?thesis
    using inst busy down hinted plain unfolding same second
    by (simp del: callWithRetry.simps)
qed

text \<open>
  C4 as stated fails: with three rate-limited attempts the call does not give up but
  makes a fourth attempt and returns its completion; and the hint \<open>0\<close> that the three
  answers carry is not the wait (the waits are 1000, 2000 and 4000 ms).
\<close>

theorem provider_call_fourth_attempt_counterexample:
  "rateLimited (throttledThrice 0) \<and> rateLimited (throttledThrice 1) \<and>
   rateLimited (throttledThrice 2) \<and>
   retryAfterParsed (responseOf (throttledThrice 0)) = Some 0 \<and>
   callOpenAI throttledThrice 0 3 =
     (Inr ''## Inquiry'',
      [RateLimitLog 1000 1 3, Sleep 1000, RateLimitLog 2000 2 3, Sleep 2000,
       RateLimitLog 4000 3 3, Sleep 4000])"
  by (simp add: callOpenAI_def throttledThrice_def rateLimited_def responseOf_def
        retryDelay_def settle_def)

subsection \<open>Monitoring\<close>

lemma fst_andThen:
  "fst (andThen m f) = fst m @ (case snd m of Inl err \<Rightarrow> [] | Inr a \<Rightarrow> fst (f a))"
  by (cases m) (auto simp: andThen_def split: sum.splits prod.splits)

lemma snd_andThen:
  "snd (andThen m f) = (case snd m of Inl err \<Rightarrow> Inl err | Inr a \<Rightarrow> snd (f a))"
  by (cases m) (auto simp: andThen_def split: sum.splits prod.splits)


lemma events_append:
  "statusEvents (xs @ ys) = statusEvents xs @ statusEvents ys"
  "communicationEvents (xs @ ys) = communicationEvents xs @ communicationEvents ys"
  "postedCommunications (xs @ ys) = postedCommunications xs @ postedCommunications ys"
  by (simp_all add: statusEvents_def communicationEvents_def postedCommunications_def)

lemma events_Nil:
  "statusEvents [] = []" "communicationEvents [] = []" "postedCommunications [] = []"
  by (simp_all add: statusEvents_def communicationEvents_def postedCommunications_def)

lemma events_Cons:
  "statusEvents (x # xs) = statusEvent x @ statusEvents xs"
  "communicationEvents (x # xs) = communicationEvent x @ communicationEvents xs"
  "postedCommunications (x # xs) = postedCommunication x @ postedCommunications xs"
  by (simp_all add: statusEvents_def communicationEvents_def postedCommunications_def)

lemma events_lookup:
  "statusEvents (map LookupLog printed) = []"
  "communicationEvents (map LookupLog printed) = []"
  "postedCommunications (map LookupLog printed) = []"
  by (induction printed) (simp_all add: events_Nil events_Cons)

lemmas event_simps = events_append events_Nil events_Cons events_lookup

lemma notifyStatusChange_events:
  "statusEvents (fst (notifyStatusChange f e c prev opts)) = []"
  "communicationEvents (fst (notifyStatusChange f e c prev opts)) = []"
  "postedCommunications (fst (notifyStatusChange f e c prev opts)) = []"
  by (auto simp: notifyStatusChange_def fst_andThen say_def postCommentToIssue_def event_simps
           split: prod.splits option.splits)

lemma postEach_events:
  "statusEvents (fst (postEach e n c ms)) = []"
  "communicationEvents (fst (postEach e n c ms)) = []"
  "prefix (postedCommunications (fst (postEach e n c ms))) (map (Pair c) ms)"
  by (induction ms)
     (auto simp: done_io_def fst_andThen postCommentToIssue_def event_simps
           split: option.splits sum.splits)

lemma postEach_all:
  "(\<forall>m \<in> set ms. httpPost e n (CommunicationComment c m) = None) \<Longrightarrow>
   postEach e n c ms = (map (\<lambda>m. HttpPost n (CommunicationComment c m)) ms, Inr ())"
  by (induction ms) (auto simp: done_io_def andThen_def postCommentToIssue_def)

lemma postedCommunications_map:
  "postedCommunications (map (\<lambda>m. HttpPost n (CommunicationComment c m)) ms) = map (Pair c) ms"
  "communicationEvents (map (\<lambda>m. HttpPost n (CommunicationComment c m)) ms) = []"
  "statusEvents (map (\<lambda>m. HttpPost n (CommunicationComment c m)) ms) = []"
  by (induction ms) (simp_all add: event_simps)

lemma notifyNewCommunications_events:
  "statusEvents (fst (notifyNewCommunications f e c ms opts)) = []"
  "communicationEvents (fst (notifyNewCommunications f e c ms opts)) = []"
  "prefix (postedCommunications (fst (notifyNewCommunications f e c ms opts))) (map (Pair c) ms)"
  by (auto simp: notifyNewCommunications_def fst_andThen say_def postEach_events event_simps
           split: prod.splits option.splits)

lemma checkCaseChanges_parts:
  "previousState (caseId c) = Some prev \<Longrightarrow>
   checkCaseChanges f e c previousState opts =
     andThen (statusPart f e c prev opts) (\<lambda>u. commPart f e c prev opts)"
  by (simp add: checkCaseChanges_def statusPart_def commPart_def Let_def)

lemma statusPart_events:
  "statusEvents (fst (statusPart f e c prev opts)) =
     (if status c \<noteq> status prev then [(caseId c, status prev, status c)] else [])"
  "communicationEvents (fst (statusPart f e c prev opts)) = []"
  "postedCommunications (fst (statusPart f e c prev opts)) = []"
  by (simp_all add: statusPart_def fst_andThen say_def done_io_def notifyStatusChange_events
        event_simps)

lemma statusPart_ok:
  assumes "status c = status prev \<or> httpPost e n (StatusChangeComment c prev) = None"
    and "truthy (githubToken opts)" and "truthy (repository opts)"
    and "f (caseId c) (repository opts) = (printed, Some n)" and "n \<noteq> 0"
  shows "snd (statusPart f e c prev opts) = Inr ()"
  using assms
  by (auto simp: statusPart_def done_io_def snd_andThen say_def notifyStatusChange_def
        postCommentToIssue_def)

lemma commPart_events:
  "statusEvents (fst (commPart f e c prev opts)) = []"
  "communicationEvents (fst (commPart f e c prev opts)) =
     (if getNewCommunications c prev \<noteq> [] then [(length (getNewCommunications c prev), caseId c)] else [])"
  "prefix (postedCommunications (fst (commPart f e c prev opts)))
     (map (Pair c) (getNewCommunications c prev))"
  by (simp_all add: commPart_def fst_andThen say_def done_io_def notifyNewCommunications_events
        event_simps)

lemma getNewCommunications_same_times:
  "set (map commTimeCreated (commsOf c)) = set (map commTimeCreated (commsOf prev)) \<Longrightarrow>
   getNewCommunications c prev = []"
  by (auto simp: getNewCommunications_def Let_def filter_empty_conv)

text \<open>
  C3. For a case with a prior snapshot: when the snapshot's status is \<open>opened\<close> and the
  polled status is \<open>resolved\<close>, exactly one status change is reported, for this case
  id, from \<open>opened\<close> to \<open>resolved\<close> (in general, one status change when the two
  statuses differ and none otherwise). When the status is the same and the two sets
  of \<open>timeCreated\<close> values are equal, nothing happens at all. The new communications are
  the polled communications, in order, whose \<open>timeCreated\<close> is not among the snapshot's;
  at most one new-communications event is reported, with their number, and the
  comments sent for it are for these communications, in this order: a prefix of them in
  general, and all of them when the issue is found and every post succeeds.
\<close>

theorem checkCaseChanges_events:
  assumes "previousState (caseId c) = Some prev"
  shows
   "(status prev = ''opened'' \<and> status c = ''resolved'' \<longrightarrow>
       statusEvents (fst (checkCaseChanges f e c previousState opts)) =
         [(caseId c, ''opened'', ''resolved'')]) \<and>
    statusEvents (fst (checkCaseChanges f e c previousState opts)) =
       (if status c \<noteq> status prev then [(caseId c, status prev, status c)] else []) \<and>
    (status c = status prev \<and>
     set (map commTimeCreated (commsOf c)) = set (map commTimeCreated (commsOf prev)) \<longrightarrow>
       checkCaseChanges f e c previousState opts = ([], Inr ())) \<and>
    getNewCommunications c prev =
       filter (\<lambda>m. commTimeCreated m \<notin> set (map commTimeCreated (commsOf prev))) (commsOf c) \<and>
    (communicationEvents (fst (checkCaseChanges f e c previousState opts)) = [] \<or>
     communicationEvents (fst (checkCaseChanges f e c previousState opts)) =
       [(length (getNewCommunications c prev), caseId c)]) \<and>
    prefix (postedCommunications (fst (checkCaseChanges f e c previousState opts)))
       (map (Pair c) (getNewCommunications c prev)) \<and>
    (getNewCommunications c prev \<noteq> [] \<and>
     (status c = status prev \<or> httpPost e n (StatusChangeComment c prev) = None) \<and>
     truthy (githubToken opts) \<and> truthy (repository opts) \<and>
     snd (f (caseId c) (repository opts)) = Some n \<and> n \<noteq> 0 \<and>
     (\<forall>m \<in> set (getNewCommunications c prev). httpPost e n (CommunicationComment c m) = None) \<longrightarrow>
       communicationEvents (fst (checkCaseChanges f e c previousState opts)) =
         [(length (getNewCommunications c prev), caseId c)] \<and>
       postedCommunications (fst (checkCaseChanges f e c previousState opts)) =
         map (Pair c) (getNewCommunications c prev))"
proof -
  let ?S = "statusPart f e c prev opts"
  let ?C = "commPart f e c prev opts"
  let ?new = "getNewCommunications c prev"
  have parts: "checkCaseChanges f e c previousState opts = andThen ?S (\<lambda>u. ?C)"
    using assms by (rule checkCaseChanges_parts)
  have effs: "fst (checkCaseChanges f e c previousState opts) =
                fst ?S @ (case snd ?S of Inl err \<Rightarrow> [] | Inr a \<Rightarrow> fst ?C)"
    unfolding parts by (rule fst_andThen)
  have st: "statusEvents (fst (checkCaseChanges f e c previousState opts)) =
       (if status c \<noteq> status prev then [(caseId c, status prev, status c)] else [])"
    unfolding effs by (simp add: statusPart_events commPart_events event_simps split: sum.splits)
  have same: "checkCaseChanges f e c previousState opts = ([], Inr ())"
    if "status c = status prev"
      "set (map commTimeCreated (commsOf c)) = set (map commTimeCreated (commsOf prev))"
    unfolding parts using that getNewCommunications_same_times [of c prev]
    by (simp add: statusPart_def commPart_def done_io_def andThen_def)
  have new: "?new = filter (\<lambda>m. commTimeCreated m \<notin> set (map commTimeCreated (commsOf prev))) (commsOf c)"
    by (simp add: getNewCommunications_def Let_def)
  have ce: "communicationEvents (fst (checkCaseChanges f e c previousState opts)) = [] \<or>
     communicationEvents (fst (checkCaseChanges f e c previousState opts)) = [(length ?new, caseId c)]"
    unfolding effs by (simp add: statusPart_events commPart_events event_simps split: sum.splits)
  have pc: "prefix (postedCommunications (fst (checkCaseChanges f e c previousState opts)))
       (map (Pair c) ?new)"
    unfolding effs by (simp add: statusPart_events commPart_events event_simps split: sum.splits)
  have full: "communicationEvents (fst (checkCaseChanges f e c previousState opts)) =
         [(length ?new, caseId c)] \<and>
       postedCommunications (fst (checkCaseChanges f e c previousState opts)) = map (Pair c) ?new"
    if h: "?new \<noteq> []" "status c = status prev \<or> httpPost e n (StatusChangeComment c prev) = None"
      "truthy (githubToken opts)" "truthy (repository opts)"
      "snd (f (caseId c) (repository opts)) = Some n" "n \<noteq> 0"
      "\<forall>m \<in> set ?new. httpPost e n (CommunicationComment c m) = None"
  proof -
    obtain printed where fr: "f (caseId c) (repository opts) = (printed, Some n)"
      using h(5) by (cases "f (caseId c) (repository opts)") auto
    have "notifyNewCommunications f e c ?new opts =
            (map LookupLog (fst (f (caseId c) (repository opts))) @
             map (\<lambda>m. HttpPost n (CommunicationComment c m)) ?new, Inr ())"
      using h(6) postEach_all [OF h(7)]
      by (simp add: notifyNewCommunications_def andThen_def fr)
    then have "fst ?C = Console (LogNewCommunications (length ?new) (caseId c)) #
            map LookupLog (fst (f (caseId c) (repository opts))) @
             map (\<lambda>m. HttpPost n (CommunicationComment c m)) ?new"
      using h(1,3,4) by (simp add: commPart_def fst_andThen say_def)
    moreover have "snd ?S = Inr ()"
      using statusPart_ok [of c prev e n opts f printed] h(2,3,4,6) fr by blast
    ultimately show ?thesis
      unfolding effs
      by (simp add: statusPart_events postedCommunications_map event_simps)
  qed
  show ?thesis
    apply (intro conjI impI)
    subgoal using st by simp
    subgoal by (rule st)
    subgoal using same by blast
    subgoal by (rule new)
    subgoal by (rule ce)
    subgoal by (rule pc)
    subgoal using full by blast
    subgoal using full by blast
    done
qed

theorem checkCaseChanges_events_witness:
  "statusEvents (fst (checkCaseChanges issueSeven quietEnv resolvedNow knownCases tokenAndRepository)) =
     [(''case-2025-0077'', ''opened'', ''resolved'')] \<and>
   communicationEvents (fst (checkCaseChanges issueSeven quietEnv resolvedNow knownCases tokenAndRepository)) =
     [(1, ''case-2025-0077'')] \<and>
   postedCommunications (fst (checkCaseChanges issueSeven quietEnv resolvedNow knownCases tokenAndRepository)) =
     [(resolvedNow, secondAnswer)] \<and>
   checkCaseChanges issueSeven quietEnv openedCase knownCases tokenAndRepository = ([], Inr ())"
proof -
  have known: "knownCases (caseId resolvedNow) = Some openedCase"
    "knownCases (caseId openedCase) = Some openedCase"
    by (simp_all add: knownCases_def resolvedNow_def openedCase_def)
  have st: "status openedCase = ''opened''" "status resolvedNow = ''resolved''"
    "caseId resolvedNow = ''case-2025-0077''"
    by (simp_all add: resolvedNow_def openedCase_def)
  have new: "getNewCommunications resolvedNow openedCase = [secondAnswer]"
    by code_simp
  have opts: "truthy (githubToken tokenAndRepository)" "truthy (repository tokenAndRepository)"
    by (simp_all add: tokenAndRepository_def)
  have found: "snd (issueSeven (caseId resolvedNow) (repository tokenAndRepository)) = Some 7"
    "(7::nat) \<noteq> 0"
    by (simp_all add: issueSeven_def)
  have posts: "httpPost quietEnv 7 (StatusChangeComment resolvedNow openedCase) = None"
    "\<forall>m \<in> set (getNewCommunications resolvedNow openedCase).
        httpPost quietEnv 7 (CommunicationComment resolvedNow m) = None"
    by (simp_all add: quietEnv_def)
  have same: "status openedCase = status openedCase"
    "set (map commTimeCreated (commsOf openedCase)) = set (map commTimeCreated (commsOf openedCase))"
    by simp_all
  show ?thesis
    using checkCaseChanges_events
            [of knownCases resolvedNow openedCase issueSeven quietEnv tokenAndRepository 7]
      checkCaseChanges_events
            [of knownCases openedCase openedCase issueSeven quietEnv tokenAndRepository 7]
      known st opts found posts same
    unfolding new by simp
qed

lemma indexCases_absent:
  "cid \<notin> caseId ` set cs \<Longrightarrow> indexCases cs st cid = st cid"
  by (induction cs arbitrary: st) auto

lemma indexCases_present:
  "cid \<in> caseId ` set cs \<Longrightarrow>
   \<exists>c' \<in> set cs. caseId c' = cid \<and> indexCases cs st cid = Some c'"
proof (induction cs arbitrary: st)
  case Nil
  then show ?case by simp
next
  case (Cons x xs)
  show ?case
  proof (cases "cid \<in> caseId ` set xs")
    case True
    from Cons.IH [OF True, of "st(caseId x \<mapsto> x)"]
    obtain c' where "c' \<in> set xs" "caseId c' = cid"
      "indexCases xs (st(caseId x \<mapsto> x)) cid = Some c'" by blast
    then show ?thesis by (intro bexI [of _ c']) simp_all
  next
    case False
    then have "caseId x = cid" using Cons.prems by auto
    then show ?thesis using False by (simp add: indexCases_absent)
  qed
qed

lemma monitorAllCases_polled:
  assumes "describeCases e (newClient (Some (awsProfile opts)) None (optMockMode opts)) = (evs0, Inr response)"
  shows "monitorAllCases f e opts files =
    (case checkAllCases f e (polledCases response) (fst (loadState files (stateFile opts)))
              \<lparr>githubToken = githubToken opts, repository = repository opts\<rparr> of
       (evs2, Inl err) \<Rightarrow>
          \<lparr>filesAfter = files,
           effects = Console LogMonitoring # evs0 @ Console (LogFound (length (polledCases response)))
                       # snd (loadState files (stateFile opts)) @ evs2
                       @ [Console (LogErrorMonitoring (errMessage err))],
           outcome = Inl err\<rparr>
     | (evs2, Inr u) \<Rightarrow>
          \<lparr>filesAfter = fst (saveState e files (stateFile opts) (polledCases response)),
           effects = Console LogMonitoring # evs0 @ Console (LogFound (length (polledCases response)))
                       # snd (loadState files (stateFile opts)) @ evs2
                       @ snd (saveState e files (stateFile opts) (polledCases response))
                       @ [Console LogCompleted],
           outcome = Inr ()\<rparr>)"
  using assms
  by (simp add: monitorAllCases_def Let_def polledCases_def split: prod.splits sum.splits)

lemma monitorAllCases_first_run:
  assumes "files (stateFile opts) = None \<or> files (stateFile opts) = Some (Unloadable msg)"
    and "optMockMode opts"
  shows "outcome (monitorAllCases f e opts files) = Inr ()"
proof -
  have empty: "fst (loadState files (stateFile opts)) = Map.empty"
    using assms(1) by (auto simp: loadState_def)
  have d: "describeCases e (newClient (Some (awsProfile opts)) None (optMockMode opts)) =
        mockDescribeCases e"
    using assms(2) by (simp add: describeCases_def newClient_def)
  show ?thesis
    unfolding monitorAllCases_polled [OF d [unfolded mockDescribeCases_def]] empty
    by (simp add: polledCases_def checkCaseChanges_def andThen_def say_def done_io_def)
qed

text \<open>
  C9, as amended. When the state file does not exist, \<open>loadState\<close> returns the empty
  state and prints nothing. When the file cannot be loaded, it returns the empty state
  and prints one warning. In both cases a run in mock mode completes without error.
\<close>

theorem loadState_degrades:
  "(files path = None \<longrightarrow> loadState files path = (Map.empty, [])) \<and>
   (files path = Some (Unloadable msg) \<longrightarrow>
      loadState files path = (Map.empty, [Console (LogLoadFailed msg)])) \<and>
   ((files (stateFile opts) = None \<or> files (stateFile opts) = Some (Unloadable msg)) \<and>
    optMockMode opts \<longrightarrow> outcome (monitorAllCases f e opts files) = Inr ())"
  using monitorAllCases_first_run [of files opts msg f e]
  by (simp add: loadState_def)

theorem loadState_degrades_witness:
  "loadState noStateFiles ''.aws-case-state.json'' = (Map.empty, []) \<and>
   loadState brokenFiles ''.aws-case-state.json'' =
     (Map.empty, [Console (LogLoadFailed ''Unexpected end of JSON input'')]) \<and>
   outcome (monitorAllCases findIssueNumber quietEnv mockOptions noStateFiles) = Inr () \<and>
   outcome (monitorAllCases findIssueNumber quietEnv mockOptions brokenFiles) = Inr ()"
proof -
  have a: "noStateFiles ''.aws-case-state.json'' = None" by (simp add: noStateFiles_def)
  have b: "brokenFiles ''.aws-case-state.json'' = Some (Unloadable ''Unexpected end of JSON input'')"
    by (simp add: brokenFiles_def)
  have c: "stateFile mockOptions = ''.aws-case-state.json''" "optMockMode mockOptions"
    by (simp_all add: mockOptions_def defaultOptions_def)
  show ?thesis
    using loadState_degrades [of noStateFiles "''.aws-case-state.json''" _ mockOptions findIssueNumber quietEnv]
      loadState_degrades [of brokenFiles "''.aws-case-state.json''" "''Unexpected end of JSON input''"
         mockOptions findIssueNumber quietEnv]
      a b c
    by simp
qed

text \<open>
  C9 as stated fails: for a missing state file no warning is printed.
\<close>

theorem loadState_missing_counterexample:
  "noStateFiles ''.aws-case-state.json'' = None \<and>
   snd (loadState noStateFiles ''.aws-case-state.json'') = []"
  by (simp add: noStateFiles_def loadState_def)

text \<open>
  C1, as amended. When the poll succeeds, the run completes and the write succeeds, the
  state file holds exactly the polled cases: every polled case id has a snapshot (a
  polled case with that id), and a case id that is not in the poll has none, whatever
  the file held before.
\<close>

theorem monitorAllCases_saves_latest_poll:
  assumes "describeCases e (newClient (Some (awsProfile opts)) None (optMockMode opts)) = (evs0, Inr response)"
    and "outcome (monitorAllCases f e opts files) = Inr ()"
    and "writeError e (stateFile opts) = None"
  shows "filesAfter (monitorAllCases f e opts files) (stateFile opts) =
           Some (SavedCases (polledCases response)) \<and>
         (\<forall>cid. cid \<notin> caseId ` set (polledCases response) \<longrightarrow>
            fst (loadState (filesAfter (monitorAllCases f e opts files)) (stateFile opts)) cid = None) \<and>
         (\<forall>c \<in> set (polledCases response). \<exists>c' \<in> set (polledCases response).
            caseId c' = caseId c \<and>
            fst (loadState (filesAfter (monitorAllCases f e opts files)) (stateFile opts)) (caseId c) = Some c')"
proof -
  have saved: "filesAfter (monitorAllCases f e opts files) (stateFile opts) =
           Some (SavedCases (polledCases response))"
    using assms(2,3) unfolding monitorAllCases_polled [OF assms(1)]
    by (auto simp: saveState_def split: prod.splits sum.splits)
  then have loaded: "fst (loadState (filesAfter (monitorAllCases f e opts files)) (stateFile opts)) =
      indexCases (polledCases response) Map.empty"
    by (simp add: loadState_def)
  show ?thesis
    unfolding loaded using saved indexCases_present [of _ "polledCases response" Map.empty]
    by (auto simp: indexCases_absent)
qed

lemma mock_poll_quiet:
  "describeCases quietEnv (newClient (Some (awsProfile mockOptions)) None (optMockMode mockOptions)) =
     ([Console LogMockDescribing], Inr \<lparr>responseCases = Some [mockSnapshot]\<rparr>)"
  by (simp add: describeCases_def mockDescribeCases_def newClient_def mockOptions_def
        defaultOptions_def quietEnv_def steadyClock_def mockSnapshot_def)

theorem monitorAllCases_saves_latest_poll_witness:
  "filesAfter (monitorAllCases findIssueNumber quietEnv mockOptions staleFiles) ''.aws-case-state.json'' =
     Some (SavedCases [mockSnapshot]) \<and>
   fst (loadState (filesAfter (monitorAllCases findIssueNumber quietEnv mockOptions staleFiles))
          ''.aws-case-state.json'') ''case-2025-0077'' = None \<and>
   fst (loadState (filesAfter (monitorAllCases findIssueNumber quietEnv mockOptions staleFiles))
          ''.aws-case-state.json'') ''case-mock-12345'' = Some mockSnapshot"
proof -
  have ok: "outcome (monitorAllCases findIssueNumber quietEnv mockOptions staleFiles) = Inr ()"
    by code_simp
  have w: "writeError quietEnv (stateFile mockOptions) = None"
    by (simp add: quietEnv_def)
  have p: "stateFile mockOptions = ''.aws-case-state.json''"
    by (simp add: mockOptions_def defaultOptions_def)
  have polled: "polledCases \<lparr>responseCases = Some [mockSnapshot]\<rparr> = [mockSnapshot]"
    by (simp add: polledCases_def)
  have ids: "caseId mockSnapshot = ''case-mock-12345''" by (simp add: mockSnapshot_def)
  show ?thesis
    using monitorAllCases_saves_latest_poll [OF mock_poll_quiet ok w]
    unfolding p polled by (simp add: ids)
qed

text \<open>
  C1 as stated fails: a case that is in the state file and not in the poll has lost
  its snapshot after the run.
\<close>

theorem monitorAllCases_drops_absent_case_counterexample:
  "fst (loadState staleFiles ''.aws-case-state.json'') ''case-2025-0077'' = Some resolvedNow \<and>
   outcome (monitorAllCases findIssueNumber quietEnv mockOptions staleFiles) = Inr () \<and>
   fst (loadState (filesAfter (monitorAllCases findIssueNumber quietEnv mockOptions staleFiles))
          ''.aws-case-state.json'') ''case-2025-0077'' = None"
  by code_simp










end
